theory Spec2Isabelle
  imports Complex_Main
begin

section \<open>Threat scoring of the report generator\<close>


text \<open>
  What the function finds.  For \<^verbatim>\<open>login_summary.json\<close>: \<open>None\<close> when the file does not
  exist, otherwise the digit strings that \<^verbatim>\<open>grep -o\<close> cuts out after the field name
  \<^verbatim>\<open>total_failed_logins\<close>, one per match (the pattern is \<^verbatim>\<open>[0-9]*\<close>, so a match can be
  empty).  For the other three files: \<open>None\<close> when the file does not exist, otherwise the
  number of lines that \<^verbatim>\<open>grep -c\<close> counts.
\<close>

record soc_data =
  failed_login_matches :: "string list option"
  suspicious_count :: "nat option"
  scan_count :: "nat option"
  recent_changes :: "nat option"

text \<open>A 64-bit signed integer, wrapped around.\<close>

definition wrap64 :: "int \<Rightarrow> int" where
  "wrap64 i = (i + 2 ^ 63) mod 2 ^ 64 - 2 ^ 63"

definition digit_value :: "char \<Rightarrow> nat" where
  "digit_value c = of_char c - 48"

definition read_base :: "nat \<Rightarrow> string \<Rightarrow> nat" where
  "read_base base t = foldl (\<lambda>a c. base * a + digit_value c) 0 t"

text \<open>A string of digits as a bash arithmetic constant; \<open>None\<close> is an error.  The empty
  string is \<open>0\<close>; a leading zero announces base 8, where the digits 8 and 9 are errors.\<close>

definition bash_constant :: "string \<Rightarrow> int option" where
  "bash_constant t =
     (if t = [] then Some 0
      else if hd t = CHR ''0'' \<and> tl t \<noteq> [] then
        (if list_all (\<lambda>c. digit_value c < 8) (tl t)
         then Some (wrap64 (int (read_base 8 (tl t)))) else None)
      else Some (wrap64 (int (read_base 10 t))))"

text \<open>The value of \<^verbatim>\<open>$failed_logins\<close>: the matches come one per line, and the empty ones
  leave blank lines, which bash skips; two numbers in one expression are an error.\<close>

definition failed_logins_value :: "string list \<Rightarrow> int option" where
  "failed_logins_value matches =
     (case filter (\<lambda>t. t \<noteq> []) matches of
        [] \<Rightarrow> Some 0
      | [t] \<Rightarrow> bash_constant t
      | t # u # ts \<Rightarrow> None)"

text \<open>The value of a count of \<^verbatim>\<open>grep -c\<close>, which prints it in decimal.  With no matching
  line \<^verbatim>\<open>grep\<close> prints \<open>0\<close> and fails, \<^verbatim>\<open>|| echo "0"\<close> adds a second \<open>0\<close>, and the two
  lines are an error.\<close>

definition count_value :: "nat \<Rightarrow> int option" where
  "count_value n = (if n = 0 then None else Some (wrap64 (int n)))"

text \<open>\<^verbatim>\<open>[[ "$x" -gt n ]]\<close>: false when the left side is an error.\<close>

definition bash_gt :: "int option \<Rightarrow> int \<Rightarrow> bool" where
  "bash_gt x n = (case x of None \<Rightarrow> False | Some v \<Rightarrow> v > n)"









section \<open>JSON values and the JavaScript runtime\<close>

text \<open>
  The server is a Node.js program.  Its data are JSON-compatible values; a JavaScript
  number is idealised as a real (rounding of doubles is not modelled), and an object is
  the list of its properties in insertion order.
\<close>

datatype json =
    JNull
  | JBool bool
  | JNum real
  | JStr string
  | JArr "json list"
  | JObj "(string \<times> json) list"

text \<open>JavaScript truthiness, as \<^verbatim>\<open>if (x)\<close> and \<^verbatim>\<open>x || y\<close> test it.\<close>

fun truthy :: "json \<Rightarrow> bool" where
  "truthy JNull = False"
| "truthy (JBool b) = b"
| "truthy (JNum n) = (n \<noteq> 0)"
| "truthy (JStr s) = (s \<noteq> [])"
| "truthy (JArr xs) = True"
| "truthy (JObj ps) = True"

text \<open>Property access \<^verbatim>\<open>obj.name\<close>; \<open>None\<close> stands for \<^verbatim>\<open>undefined\<close>.\<close>

fun get_field :: "string \<Rightarrow> json \<Rightarrow> json option" where
  "get_field name (JObj ps) = map_of ps name"
| "get_field name v = None"

fun keys :: "json \<Rightarrow> string list" where
  "keys (JObj ps) = map fst ps"
| "keys v = []"

text \<open>
  What the program takes from the JavaScript runtime: \<^verbatim>\<open>JSON.parse\<close> (\<open>None\<close> when it
  throws a SyntaxError), \<^verbatim>\<open>JSON.stringify\<close>, the rendering of a clock value by
  \<^verbatim>\<open>toISOString\<close>, and the successive values returned by \<^verbatim>\<open>Math.random()\<close>.
\<close>

record runtime =
  JSON_parse :: "string \<Rightarrow> json option"
  JSON_stringify :: "json \<Rightarrow> string"
  toISOString :: "int \<Rightarrow> string"
  Math_random :: "nat \<Rightarrow> real"

text \<open>\<^verbatim>\<open>Math.floor(Math.random() * n)\<close>, for the \<open>k\<close>-th call of \<^verbatim>\<open>Math.random\<close>.\<close>

definition rnd :: "runtime \<Rightarrow> nat \<Rightarrow> nat \<Rightarrow> nat" where
  "rnd rt k n = nat \<lfloor>Math_random rt k * real n\<rfloor>"

text \<open>Decimal digits of a number, as a template literal prints it.\<close>

fun show_nat :: "nat \<Rightarrow> string" where
  "show_nat n =
     (if n < 10 then [''0123456789'' ! n]
      else show_nat (n div 10) @ [''0123456789'' ! (n mod 10)])"

declare show_nat.simps [simp del]

text \<open>\<^verbatim>\<open>x.toFixed(2)\<close> for a non-negative \<open>x\<close>: two decimals, rounded half up.\<close>

definition toFixed2 :: "real \<Rightarrow> string" where
  "toFixed2 x =
     (let n = nat \<lfloor>x * 100 + 1 / 2\<rfloor>
      in show_nat (n div 100) @ ''.'' @ show_nat (n mod 100 div 10) @ show_nat (n mod 10))"

text \<open>Indexing an array literal of strings; out of range is \<^verbatim>\<open>undefined\<close>, here \<open>JNull\<close>.\<close>

definition pick :: "string list \<Rightarrow> nat \<Rightarrow> json" where
  "pick xs i = (if i < length xs then JStr (xs ! i) else JNull)"

definition pick_num :: "nat list \<Rightarrow> nat \<Rightarrow> json" where
  "pick_num xs i = (if i < length xs then JNum (real (xs ! i)) else JNull)"

text \<open>A \<^verbatim>\<open>for (let i = 0; i < count; i++) list.push(...)\<close> loop whose body draws random
  numbers: the body maps the index of the next draw to the item and the index after it.\<close>

fun push_loop :: "nat \<Rightarrow> (nat \<Rightarrow> json \<times> nat) \<Rightarrow> nat \<Rightarrow> json list \<times> nat" where
  "push_loop 0 body k = ([], k)"
| "push_loop (Suc count) body k =
     (let (item, k1) = body k;
          (items, k2) = push_loop count body k1
      in (item # items, k2))"

section \<open>The host: files and child processes\<close>

datatype file_state = Missing | Unreadable | Content string

type_synonym filesystem = "string \<Rightarrow> file_state"

datatype exec_error = NonZeroExit int | TimedOut | SpawnFailed

datatype exec_result = ExecError exec_error | ExecOk string

text \<open>
  \<open>exec h n command timeout fs\<close> is the outcome of the \<open>n\<close>-th child process the server
  starts, running the command line \<open>command\<close> under the option \<^verbatim>\<open>{ timeout }\<close>, in
  milliseconds: the error or the standard output handed to the callback, and the files as
  the command leaves them.  \<open>writable\<close> says whether \<^verbatim>\<open>fs.writeFileSync\<close> succeeds on a
  path.
\<close>

record host =
  win32 :: bool
  cwd :: string
  dirname :: string
  exec :: "nat \<Rightarrow> string \<Rightarrow> nat \<Rightarrow> filesystem \<Rightarrow> exec_result \<times> filesystem"
  writable :: "string \<Rightarrow> bool"

text \<open>\<^verbatim>\<open>path.join\<close>, without the normalisation of \<^verbatim>\<open>..\<close> segments.\<close>

definition path_join :: "string \<Rightarrow> string \<Rightarrow> string" where
  "path_join dir name = dir @ ''/'' @ name"

definition OUTPUT_DIR :: "host \<Rightarrow> string" where
  "OUTPUT_DIR h = (if win32 h then path_join (cwd h) ''data'' else ''/tmp/soc_data'')"

definition BACKEND_DIR :: "host \<Rightarrow> string" where
  "BACKEND_DIR h = path_join (path_join (dirname h) ''..'') ''backend''"

text \<open>The path of Git Bash on Windows; \<open>CHR 0x5C\<close> is the backslash.\<close>

definition gitBashPath :: string where
  "gitBashPath =
     ''C:'' @ [CHR 0x5C] @ ''Program Files'' @ [CHR 0x5C] @ ''Git'' @ [CHR 0x5C] @ ''bin''
       @ [CHR 0x5C] @ ''bash.exe''"

text \<open>A path between double quotes, as the command lines have it; \<open>CHR 0x22\<close> is the
  double quote.\<close>

definition quoted :: "string \<Rightarrow> string" where
  "quoted path = [CHR 0x22] @ path @ [CHR 0x22]"

datatype js_error = ReadError | SyntaxError | TypeError | WriteError

datatype 'a promise = Resolved 'a | Rejected js_error

section \<open>The state of the server\<close>

text \<open>
  The mutable state of the process: the \<^verbatim>\<open>DataCache\<close> map (data and time of entry per
  key), the files, the counters of child processes and of \<^verbatim>\<open>Math.random\<close> calls, the
  fields of the \<^verbatim>\<open>RealTimeScanner\<close> object, the active \<^verbatim>\<open>setInterval\<close> timers, the
  WebSocket clients, the messages handed to \<^verbatim>\<open>JSON.stringify\<close> and sent to a client,
  and the HTTP responses given.
\<close>

datatype callback = LiveScan | ClientUpdate nat

record ws_client =
  client_id :: nat
  readyOpen :: bool
  updateInterval :: nat

record response =
  statusCode :: nat
  body :: json

record server =
  dataCache :: "string \<Rightarrow> (json \<times> int) option"
  files :: filesystem
  execs :: nat
  draws :: nat
  isActive :: bool
  scanInterval :: "nat option"
  scanIntervalMs :: nat
  lastScanTime :: "string option"
  scanCount :: nat
  timers :: "(nat \<times> callback \<times> nat) list"
  nextTimer :: nat
  clients :: "ws_client list"
  nextClient :: nat
  outbox :: "(nat \<times> json) list"
  responses :: "response list"

section \<open>The data cache and the file reader\<close>

text \<open>\<^verbatim>\<open>DataCache\<close>: the constructor's default \<^verbatim>\<open>ttl\<close> of 30 seconds, in milliseconds.\<close>

definition ttl :: int where
  "ttl = 30000"

text \<open>\<^verbatim>\<open>get(key)\<close>: the data of an entry younger than \<^verbatim>\<open>ttl\<close>, otherwise \<^verbatim>\<open>null\<close>.\<close>

definition cache_get :: "(string \<Rightarrow> (json \<times> int) option) \<Rightarrow> int \<Rightarrow> string \<Rightarrow> json" where
  "cache_get c now key =
     (case c key of
        None \<Rightarrow> JNull
      | Some (data, timestamp) \<Rightarrow> if now - timestamp < ttl then data else JNull)"

definition cache_set ::
  "(string \<Rightarrow> (json \<times> int) option) \<Rightarrow> int \<Rightarrow> string \<Rightarrow> json \<Rightarrow> (string \<Rightarrow> (json \<times> int) option)"
where
  "cache_set c now key data = c(key \<mapsto> (data, now))"

text \<open>
  The body of the \<^verbatim>\<open>try\<close> block of \<^verbatim>\<open>readJSONFile\<close>: \<open>Inl\<close> is an exception raised
  in it (\<^verbatim>\<open>fs.readFileSync\<close> on a path that exists and cannot be read, \<^verbatim>\<open>JSON.parse\<close>
  on text that is not JSON).  \<open>now\<close> is the value of \<^verbatim>\<open>Date.now()\<close>.
\<close>

definition readJSONFile_try ::
  "runtime \<Rightarrow> int \<Rightarrow> string \<Rightarrow> server \<Rightarrow> (js_error + json) \<times> server"
where
  "readJSONFile_try rt now filePath s =
     (let cachedData = cache_get (dataCache s) now filePath
      in if truthy cachedData then (Inr cachedData, s)
         else
           (case files s filePath of
              Missing \<Rightarrow> (Inr JNull, s)
            | Unreadable \<Rightarrow> (Inl ReadError, s)
            | Content text \<Rightarrow>
                (case JSON_parse rt text of
                   None \<Rightarrow> (Inl SyntaxError, s)
                 | Some data \<Rightarrow>
                     (Inr data, s\<lparr>dataCache := cache_set (dataCache s) now filePath data\<rparr>))))"

text \<open>\<^verbatim>\<open>readJSONFile\<close>: the \<^verbatim>\<open>catch\<close> clause logs the error and returns \<^verbatim>\<open>null\<close>.\<close>

definition readJSONFile ::
  "runtime \<Rightarrow> int \<Rightarrow> string \<Rightarrow> server \<Rightarrow> (js_error + json) \<times> server"
where
  "readJSONFile rt now filePath s =
     (case readJSONFile_try rt now filePath s of
        (Inl error, s1) \<Rightarrow> (Inr JNull, s1)
      | (Inr data, s1) \<Rightarrow> (Inr data, s1))"

section \<open>Sample data\<close>

text \<open>\<^verbatim>\<open>generateSampleData(dataType)\<close>, from draw \<open>k\<close> of \<^verbatim>\<open>Math.random\<close> on; the
  result comes with the index of the next draw.\<close>

definition generateSampleData :: "runtime \<Rightarrow> int \<Rightarrow> string \<Rightarrow> nat \<Rightarrow> json \<times> nat" where
  "generateSampleData rt t dataType k =
     (let now = JStr (toISOString rt t)
      in if dataType = ''login_summary'' then
           (JObj [(''timestamp'', now),
                  (''total_failed_logins'', JNum (real (rnd rt k 50 + 10))),
                  (''total_successful_logins'', JNum (real (rnd rt (k + 1) 200 + 50))),
                  (''unique_attacking_ips'', JNum (real (rnd rt (k + 2) 20 + 5))),
                  (''brute_force_attempts'', JNum (real (rnd rt (k + 3) 15 + 3)))],
            k + 4)
         else if dataType = ''failed_logins'' then
           (JArr [JObj [(''timestamp'', now),
                        (''ip'', JStr (''192.168.'' @ show_nat (rnd rt k 255) @ ''.''
                                        @ show_nat (rnd rt (k + 1) 255))),
                        (''username'', JStr (''user'' @ show_nat (rnd rt (k + 2) 100))),
                        (''attempts'', JNum (real (rnd rt (k + 3) 10 + 1))),
                        (''status'', JStr ''failed'')]],
            k + 4)
         else if dataType = ''security_metrics'' then
           (JObj [(''system_metrics'',
                     JObj [(''cpu_usage_percent'', JNum (real (rnd rt k 30 + 20))),
                           (''memory_usage_percent'', JNum (real (rnd rt (k + 1) 40 + 30))),
                           (''disk_usage_percent'', JNum (real (rnd rt (k + 2) 20 + 40)))]),
                  (''network_metrics'',
                     JObj [(''active_connections'', JNum (real (rnd rt (k + 3) 100 + 50))),
                           (''listening_ports'', JNum (real (rnd rt (k + 4) 20 + 10))),
                           (''blocked_ips'', JNum (real (rnd rt (k + 5) 15 + 5)))]),
                  (''timestamp'', now)],
            k + 6)
         else (JObj [], k))"

section \<open>Running a monitoring script\<close>

text \<open>
  \<^verbatim>\<open>runMonitoringScript(scriptName)\<close> returns a promise.  The executor calls
  \<^verbatim>\<open>resolve\<close> on every path and never \<^verbatim>\<open>reject\<close>; \<^verbatim>\<open>exec\<close> runs under a timeout of
  30 seconds, and a timeout reaches the callback as an error like any other.
\<close>

definition runMonitoringScript :: "host \<Rightarrow> string \<Rightarrow> server \<Rightarrow> string promise \<times> server" where
  "runMonitoringScript h scriptName s =
     (let scriptPath = path_join (BACKEND_DIR h) scriptName
      in if files s scriptPath = Missing then
           (Resolved ''Script not found - using sample data'', s)
         else if win32 h then
           (if files s gitBashPath \<noteq> Missing then
              (case exec h (execs s) (quoted gitBashPath @ '' '' @ quoted scriptPath) 30000
                      (files s) of
                 (ExecError error, fs1) \<Rightarrow>
                   (Resolved ''Git Bash execution failed - using sample data'',
                    s\<lparr>files := fs1, execs := execs s + 1\<rparr>)
               | (ExecOk stdout, fs1) \<Rightarrow>
                   (Resolved stdout, s\<lparr>files := fs1, execs := execs s + 1\<rparr>))
            else (Resolved ''Git Bash not available - using sample data'', s))
         else
           (case exec h (execs s) (''bash '' @ quoted scriptPath) 30000 (files s) of
              (ExecError error, fs1) \<Rightarrow>
                (Resolved ''Script execution failed - using sample data'',
                 s\<lparr>files := fs1, execs := execs s + 1\<rparr>)
            | (ExecOk stdout, fs1) \<Rightarrow>
                (Resolved stdout, s\<lparr>files := fs1, execs := execs s + 1\<rparr>)))"

section \<open>The dashboard endpoint\<close>

text \<open>
  The object literal of \<^verbatim>\<open>GET /api/dashboard\<close>, after its \<^verbatim>\<open>timestamp\<close>: one row per
  property, in the order of the source, with the file read and the operand to the right
  of \<^verbatim>\<open>||\<close>, which is a call of \<^verbatim>\<open>generateSampleData\<close> or a literal.
\<close>

datatype fallback = Sample string | Literal json

definition dashboard_sections :: "(string \<times> string \<times> fallback) list" where
  "dashboard_sections =
     [(''login_summary'', ''login_summary.json'', Sample ''login_summary''),
      (''failed_logins'', ''failed_logins.json'', Sample ''failed_logins''),
      (''top_attackers'', ''top_attackers.json'', Literal (JArr [])),
      (''brute_force_alerts'', ''brute_force_alerts.json'', Literal (JArr [])),
      (''portscans'', ''portscans.json'', Literal (JArr [])),
      (''open_ports'', ''open_ports.json'', Literal (JArr [])),
      (''connection_stats'', ''connection_stats.json'', Literal (JObj [])),
      (''suspicious_processes'', ''suspicious_processes.json'', Literal (JArr [])),
      (''top_processes'', ''top_processes.json'', Literal (JArr [])),
      (''process_summary'', ''process_summary.json'', Literal (JObj [])),
      (''file_integrity'', ''file_integrity.json'', Literal (JArr [])),
      (''recent_changes'', ''recent_changes.json'', Literal (JArr [])),
      (''ip_geolocation'', ''ip_geolocation.json'', Literal (JArr [])),
      (''attack_by_country'', ''attack_by_country.json'', Literal (JArr [])),
      (''threat_map'', ''threat_map.json'', Literal (JArr [])),
      (''executive_summary'', ''executive_summary.json'', Literal (JObj [])),
      (''security_metrics'', ''security_metrics.json'', Sample ''security_metrics''),
      (''alert_summary'', ''alert_summary.json'', Literal (JObj [])),
      (''soc_status'', ''soc_status.json'', Literal (JObj [(''status'', JStr ''operational'')]))]"

text \<open>The right operand of \<^verbatim>\<open>||\<close>, evaluated only when the left one is falsy.\<close>

fun eval_fallback :: "runtime \<Rightarrow> int \<Rightarrow> fallback \<Rightarrow> server \<Rightarrow> json \<times> server" where
  "eval_fallback rt now (Literal v) s = (v, s)"
| "eval_fallback rt now (Sample dataType) s =
     (let (v, k) = generateSampleData rt now dataType (draws s) in (v, s\<lparr>draws := k\<rparr>))"

text \<open>One property: \<^verbatim>\<open>readJSONFile(path.join(OUTPUT_DIR, file)) || fallback\<close>.\<close>

definition read_section ::
  "runtime \<Rightarrow> host \<Rightarrow> int \<Rightarrow> string \<Rightarrow> fallback \<Rightarrow> server \<Rightarrow> (js_error + json) \<times> server"
where
  "read_section rt h now fileName fb s =
     (case readJSONFile rt now (path_join (OUTPUT_DIR h) fileName) s of
        (Inl error, s1) \<Rightarrow> (Inl error, s1)
      | (Inr data, s1) \<Rightarrow>
          if truthy data then (Inr data, s1)
          else (let (v, s2) = eval_fallback rt now fb s1 in (Inr v, s2)))"

text \<open>The properties in order; an exception leaves the literal at once.\<close>

fun read_sections ::
  "runtime \<Rightarrow> host \<Rightarrow> int \<Rightarrow> (string \<times> string \<times> fallback) list \<Rightarrow> server
     \<Rightarrow> (js_error + (string \<times> json) list) \<times> server"
where
  "read_sections rt h now [] s = (Inr [], s)"
| "read_sections rt h now ((key, fileName, fb) # rows) s =
     (case read_section rt h now fileName fb s of
        (Inl error, s1) \<Rightarrow> (Inl error, s1)
      | (Inr v, s1) \<Rightarrow>
          (case read_sections rt h now rows s1 of
             (Inl error, s2) \<Rightarrow> (Inl error, s2)
           | (Inr props, s2) \<Rightarrow> (Inr ((key, v) # props), s2)))"

text \<open>The message of an \<^verbatim>\<open>Error\<close> object, for the body of a 500 response.\<close>

fun error_message :: "js_error \<Rightarrow> string" where
  "error_message ReadError = ''read error''"
| "error_message SyntaxError = ''syntax error''"
| "error_message TypeError = ''type error''"
| "error_message WriteError = ''write error''"

definition dashboard_failure :: "js_error \<Rightarrow> response" where
  "dashboard_failure error =
     \<lparr>statusCode = 500,
      body = JObj [(''error'', JStr ''Failed to generate dashboard data''),
                   (''message'', JStr (error_message error))]\<rparr>"

text \<open>
  The handler of \<^verbatim>\<open>GET /api/dashboard\<close>: the cached object when the cache holds a fresh
  one; otherwise the report generator is awaited, the object is built, cached and sent.
  The \<^verbatim>\<open>catch\<close> clause answers 500.
\<close>

definition dashboard :: "runtime \<Rightarrow> host \<Rightarrow> int \<Rightarrow> server \<Rightarrow> response \<times> server" where
  "dashboard rt h now s =
     (let cachedData = cache_get (dataCache s) now ''dashboard_data''
      in if truthy cachedData then (\<lparr>statusCode = 200, body = cachedData\<rparr>, s)
         else
           (case runMonitoringScript h ''generate_report.sh'' s of
              (Rejected error, s1) \<Rightarrow> (dashboard_failure error, s1)
            | (Resolved out, s1) \<Rightarrow>
                (case read_sections rt h now dashboard_sections s1 of
                   (Inl error, s2) \<Rightarrow> (dashboard_failure error, s2)
                 | (Inr props, s2) \<Rightarrow>
                     (let dashboardData = JObj ((''timestamp'', JStr (toISOString rt now)) # props)
                      in (\<lparr>statusCode = 200, body = dashboardData\<rparr>,
                          s2\<lparr>dataCache :=
                               cache_set (dataCache s2) now ''dashboard_data'' dashboardData\<rparr>)))))"

section \<open>The live data of the real-time scanner\<close>

text \<open>
  The \<^verbatim>\<open>getLive...\<close> methods of \<^verbatim>\<open>RealTimeScanner\<close>.  Each takes the index \<open>k\<close> of the
  next \<^verbatim>\<open>Math.random\<close> draw and returns its value with the index after its last draw.
\<close>

definition getLiveLoginData :: "runtime \<Rightarrow> int \<Rightarrow> nat \<Rightarrow> json \<times> nat" where
  "getLiveLoginData rt t k =
     (JObj [(''timestamp'', JStr (toISOString rt t)),
            (''total_failed_logins'', JNum (real (rnd rt k 50 + 10))),
            (''total_successful_logins'', JNum (real (rnd rt (k + 1) 200 + 50))),
            (''unique_attacking_ips'', JNum (real (rnd rt (k + 2) 20 + 5))),
            (''brute_force_attempts'', JNum (real (rnd rt (k + 3) 15 + 3)))],
      k + 4)"

definition random_ip :: "runtime \<Rightarrow> nat \<Rightarrow> string" where
  "random_ip rt k = ''192.168.'' @ show_nat (rnd rt k 255) @ ''.'' @ show_nat (rnd rt (k + 1) 255)"

definition getLiveFailedLogins :: "runtime \<Rightarrow> int \<Rightarrow> nat \<Rightarrow> json \<times> nat" where
  "getLiveFailedLogins rt t k =
     (let count = rnd rt k 5 + 1;
          (failedLogins, k1) =
            push_loop count
              (\<lambda>j. (JObj [(''timestamp'', JStr (toISOString rt t)),
                          (''ip'', JStr (random_ip rt j)),
                          (''username'', JStr (''user'' @ show_nat (rnd rt (j + 2) 100))),
                          (''attempts'', JNum (real (rnd rt (j + 3) 10 + 1))),
                          (''status'', JStr ''failed'')],
                    j + 4))
              (k + 1)
      in (JArr failedLogins, k1))"

definition getLiveTopAttackers :: "runtime \<Rightarrow> int \<Rightarrow> nat \<Rightarrow> json \<times> nat" where
  "getLiveTopAttackers rt t k =
     (let count = rnd rt k 5 + 1;
          (attackers, k1) =
            push_loop count
              (\<lambda>j. (JObj [(''ip'', JStr (random_ip rt j)),
                          (''attempts'', JNum (real (rnd rt (j + 2) 50 + 10))),
                          (''country'', pick [''US'', ''CN'', ''RU'', ''DE'', ''FR''] (rnd rt (j + 3) 5)),
                          (''last_seen'', JStr (toISOString rt t))],
                    j + 4))
              (k + 1)
      in (JArr attackers, k1))"

definition getLivePortScans :: "runtime \<Rightarrow> int \<Rightarrow> nat \<Rightarrow> json \<times> nat" where
  "getLivePortScans rt t k =
     (let count = rnd rt k 3 + 1;
          (portScans, k1) =
            push_loop count
              (\<lambda>j. (JObj [(''timestamp'', JStr (toISOString rt t)),
                          (''source_ip'', JStr (random_ip rt j)),
                          (''target_ports'',
                             JArr (map (\<lambda>p. JNum (real p))
                                     (take (rnd rt (j + 2) 3 + 1) [22, 80, 443, 8080, 3306 :: nat]))),
                          (''scan_type'', pick [''TCP'', ''UDP''] (rnd rt (j + 3) 2)),
                          (''duration'', JNum (real (rnd rt (j + 4) 300 + 60)))],
                    j + 5))
              (k + 1)
      in (JArr portScans, k1))"

definition suspiciousNames :: "string list" where
  "suspiciousNames = [''netcat'', ''nmap'', ''metasploit'', ''backdoor'', ''rootkit'']"

definition pick_path :: "string \<Rightarrow> string list \<Rightarrow> nat \<Rightarrow> string" where
  "pick_path dir xs i = dir @ (if i < length xs then xs ! i else ''undefined'')"

definition getLiveSuspiciousProcesses :: "runtime \<Rightarrow> int \<Rightarrow> nat \<Rightarrow> json \<times> nat" where
  "getLiveSuspiciousProcesses rt t k =
     (let count = rnd rt k 2;
          (processes, k1) =
            push_loop count
              (\<lambda>j. (JObj [(''process_name'', pick suspiciousNames (rnd rt j (length suspiciousNames))),
                          (''pid'', JNum (real (rnd rt (j + 1) 10000 + 1000))),
                          (''cpu_usage'', JStr (toFixed2 (Math_random rt (j + 2) * 10))),
                          (''memory_usage'', JStr (toFixed2 (Math_random rt (j + 3) * 5))),
                          (''command'',
                             JStr (pick_path ''/usr/bin/'' suspiciousNames
                                     (rnd rt (j + 4) (length suspiciousNames)))),
                          (''severity'', JStr ''high''),
                          (''timestamp'', JStr (toISOString rt t))],
                    j + 5))
              (k + 1)
      in (JArr processes, k1))"

definition getLiveOpenPorts :: "runtime \<Rightarrow> int \<Rightarrow> nat \<Rightarrow> json \<times> nat" where
  "getLiveOpenPorts rt t k =
     (let commonPorts = [22, 80, 443, 8080, 3306, 5432, 27017 :: nat];
          count = rnd rt k 5 + 2;
          (openPorts, k1) =
            push_loop count
              (\<lambda>j. (JObj [(''port'', pick_num commonPorts (rnd rt j (length commonPorts))),
                          (''service'',
                             pick [''SSH'', ''HTTP'', ''HTTPS'', ''HTTP-Proxy'', ''MySQL'',
                                   ''PostgreSQL'', ''MongoDB''] (rnd rt (j + 1) 7)),
                          (''state'', JStr ''LISTEN''),
                          (''process'', JStr (''process_'' @ show_nat (rnd rt (j + 2) 1000))),
                          (''timestamp'', JStr (toISOString rt t))],
                    j + 3))
              (k + 1)
      in (JArr openPorts, k1))"

definition getLiveConnectionStats :: "runtime \<Rightarrow> int \<Rightarrow> nat \<Rightarrow> json \<times> nat" where
  "getLiveConnectionStats rt t k =
     (JObj [(''established_connections'', JNum (real (rnd rt k 200 + 100))),
            (''listening_ports'', JNum (real (rnd rt (k + 1) 20 + 10))),
            (''active_network_sessions'', JNum (real (rnd rt (k + 2) 300 + 150))),
            (''timestamp'', JStr (toISOString rt t))],
      k + 3)"

definition getLiveSecurityMetrics :: "runtime \<Rightarrow> int \<Rightarrow> nat \<Rightarrow> json \<times> nat" where
  "getLiveSecurityMetrics rt t k =
     (JObj [(''system_metrics'',
               JObj [(''memory_usage_percent'', JNum (Math_random rt k * 30 + 50)),
                     (''cpu_usage_percent'', JNum (Math_random rt (k + 1) * 40 + 20)),
                     (''disk_usage_percent'', JNum (Math_random rt (k + 2) * 30 + 40))]),
            (''network_metrics'',
               JObj [(''active_connections'', JNum (real (rnd rt (k + 3) 200 + 100))),
                     (''listening_ports'', JNum (real (rnd rt (k + 4) 20 + 10))),
                     (''blocked_ips'', JNum (real (rnd rt (k + 5) 15 + 5)))])],
      k + 6)"

definition getLiveAlertSummary :: "runtime \<Rightarrow> int \<Rightarrow> nat \<Rightarrow> json \<times> nat" where
  "getLiveAlertSummary rt t k =
     (JObj [(''total_alerts'', JNum (real (rnd rt k 20 + 5))),
            (''critical_alerts'', JNum (real (rnd rt (k + 1) 5 + 1))),
            (''high_alerts'', JNum (real (rnd rt (k + 2) 8 + 2))),
            (''medium_alerts'', JNum (real (rnd rt (k + 3) 10 + 3))),
            (''low_alerts'', JNum (real (rnd rt (k + 4) 15 + 5))),
            (''timestamp'', JStr (toISOString rt t))],
      k + 5)"

definition getLiveExecutiveSummary :: "runtime \<Rightarrow> int \<Rightarrow> nat \<Rightarrow> json \<times> nat" where
  "getLiveExecutiveSummary rt t k =
     (JObj [(''overall_threat_level'', pick [''Low'', ''Medium'', ''High''] (rnd rt k 3)),
            (''active_threats'', JNum (real (rnd rt (k + 1) 10 + 1))),
            (''system_health'', JNum (real (rnd rt (k + 2) 40 + 60))),
            (''security_score'', JNum (real (rnd rt (k + 3) 30 + 70))),
            (''recommendations'',
               JArr [JStr ''Monitor failed login attempts'',
                     JStr ''Review suspicious processes'',
                     JStr ''Check open ports'',
                     JStr ''Update security policies'']),
            (''timestamp'', JStr (toISOString rt t))],
      k + 4)"

text \<open>\<^verbatim>\<open>gatherLiveData\<close>: the object literal, its properties evaluated in order.\<close>

definition gatherLiveData :: "runtime \<Rightarrow> int \<Rightarrow> nat \<Rightarrow> json \<times> nat" where
  "gatherLiveData rt t k =
     (let now = JStr (toISOString rt t);
          (login_summary, k) = getLiveLoginData rt t k;
          (failed_logins, k) = getLiveFailedLogins rt t k;
          (top_attackers, k) = getLiveTopAttackers rt t k;
          (portscans, k) = getLivePortScans rt t k;
          (suspicious_processes, k) = getLiveSuspiciousProcesses rt t k;
          (open_ports, k) = getLiveOpenPorts rt t k;
          (connection_stats, k) = getLiveConnectionStats rt t k;
          (security_metrics, k) = getLiveSecurityMetrics rt t k;
          (alert_summary, k) = getLiveAlertSummary rt t k;
          (executive_summary, k) = getLiveExecutiveSummary rt t k
      in (JObj [(''timestamp'', now),
                (''login_summary'', login_summary),
                (''failed_logins'', failed_logins),
                (''top_attackers'', top_attackers),
                (''portscans'', portscans),
                (''suspicious_processes'', suspicious_processes),
                (''open_ports'', open_ports),
                (''connection_stats'', connection_stats),
                (''security_metrics'', security_metrics),
                (''alert_summary'', alert_summary),
                (''executive_summary'', executive_summary)],
          k))"

section \<open>Saving and broadcasting the live data\<close>

text \<open>
  The loop of \<^verbatim>\<open>saveLiveData\<close> over \<^verbatim>\<open>filesToSave\<close>.  \<^verbatim>\<open>JSON.stringify\<close> of an
  \<^verbatim>\<open>undefined\<close> property gives \<^verbatim>\<open>undefined\<close>, which \<^verbatim>\<open>fs.writeFileSync\<close> rejects with
  a TypeError; a failed write throws too.  An exception ends the loop, and the files
  written before it stay.  (The creation of the output directory is not modelled.)
\<close>

fun write_files ::
  "runtime \<Rightarrow> host \<Rightarrow> (string \<times> json option) list \<Rightarrow> filesystem \<Rightarrow> js_error option \<times> filesystem"
where
  "write_files rt h [] fs = (None, fs)"
| "write_files rt h ((name, data) # rest) fs =
     (case data of
        None \<Rightarrow> (Some TypeError, fs)
      | Some v \<Rightarrow>
          (let filePath = path_join (OUTPUT_DIR h) name
           in if writable h filePath
              then write_files rt h rest (fs(filePath := Content (JSON_stringify rt v)))
              else (Some WriteError, fs)))"

text \<open>\<^verbatim>\<open>saveLiveData\<close>: its \<^verbatim>\<open>catch\<close> clause logs the error and returns.\<close>

definition saveLiveData :: "runtime \<Rightarrow> host \<Rightarrow> json \<Rightarrow> server \<Rightarrow> server" where
  "saveLiveData rt h liveData s =
     (let filesToSave =
            [(''login_summary.json'', get_field ''login_summary'' liveData),
             (''failed_logins.json'', get_field ''failed_logins'' liveData),
             (''top_attackers.json'', get_field ''top_attackers'' liveData),
             (''portscans.json'', get_field ''portscans'' liveData),
             (''suspicious_processes.json'', get_field ''suspicious_processes'' liveData),
             (''open_ports.json'', get_field ''open_ports'' liveData),
             (''connection_stats.json'', get_field ''connection_stats'' liveData),
             (''security_metrics.json'', get_field ''security_metrics'' liveData),
             (''alert_summary.json'', get_field ''alert_summary'' liveData),
             (''executive_summary.json'', get_field ''executive_summary'' liveData)];
          (error, fs1) = write_files rt h filesToSave (files s)
      in s\<lparr>files := fs1\<rparr>)"

text \<open>\<^verbatim>\<open>broadcastLiveUpdate\<close>: one message to every client whose \<^verbatim>\<open>readyState\<close> is
  \<^verbatim>\<open>OPEN\<close>.  The outbox keeps the object that is handed to \<^verbatim>\<open>JSON.stringify\<close>.\<close>

definition live_update_message :: "runtime \<Rightarrow> int \<Rightarrow> json \<Rightarrow> json" where
  "live_update_message rt now liveData =
     JObj [(''type'', JStr ''live_update''),
           (''data'', liveData),
           (''timestamp'', JStr (toISOString rt now))]"

definition broadcastLiveUpdate :: "runtime \<Rightarrow> int \<Rightarrow> json \<Rightarrow> server \<Rightarrow> server" where
  "broadcastLiveUpdate rt now liveData s =
     s\<lparr>outbox := outbox s
          @ map (\<lambda>client. (client_id client, live_update_message rt now liveData))
              (filter readyOpen (clients s))\<rparr>"

text \<open>\<^verbatim>\<open>performLiveScan\<close>: none of its steps throws in this model, so its \<^verbatim>\<open>catch\<close>
  clause has no branch.\<close>

definition performLiveScan :: "runtime \<Rightarrow> host \<Rightarrow> int \<Rightarrow> server \<Rightarrow> server" where
  "performLiveScan rt h now s =
     (let s1 = s\<lparr>lastScanTime := Some (toISOString rt now), scanCount := scanCount s + 1\<rparr>;
          (liveData, k) = gatherLiveData rt now (draws s1);
          s2 = s1\<lparr>draws := k\<rparr>;
          s3 = saveLiveData rt h liveData s2
      in broadcastLiveUpdate rt now liveData s3)"

section \<open>Timers and the scan controller\<close>

definition setInterval :: "callback \<Rightarrow> nat \<Rightarrow> server \<Rightarrow> nat \<times> server" where
  "setInterval cb ms s =
     (nextTimer s, s\<lparr>timers := timers s @ [(nextTimer s, cb, ms)], nextTimer := nextTimer s + 1\<rparr>)"

definition clearInterval :: "nat \<Rightarrow> server \<Rightarrow> server" where
  "clearInterval tid s = s\<lparr>timers := filter (\<lambda>timer. fst timer \<noteq> tid) (timers s)\<rparr>"

text \<open>\<^verbatim>\<open>startRealTimeScanning\<close>: returns at once when the scanner is active.\<close>

definition startRealTimeScanning :: "runtime \<Rightarrow> host \<Rightarrow> int \<Rightarrow> server \<Rightarrow> server" where
  "startRealTimeScanning rt h now s =
     (if isActive s then s
      else
        (let s1 = s\<lparr>isActive := True, scanCount := 0\<rparr>;
             (tid, s2) = setInterval LiveScan (scanIntervalMs s1) s1;
             s3 = s2\<lparr>scanInterval := Some tid\<rparr>
         in performLiveScan rt h now s3))"

text \<open>\<^verbatim>\<open>stopRealTimeScanning\<close>: returns at once when the scanner is not active.\<close>

definition stopRealTimeScanning :: "server \<Rightarrow> server" where
  "stopRealTimeScanning s =
     (if \<not> isActive s then s
      else
        (let s1 = s\<lparr>isActive := False\<rparr>
         in case scanInterval s1 of
              None \<Rightarrow> s1
            | Some tid \<Rightarrow> (clearInterval tid s1)\<lparr>scanInterval := None\<rparr>))"

section \<open>WebSocket connections\<close>

definition connection_message :: "runtime \<Rightarrow> int \<Rightarrow> json" where
  "connection_message rt now =
     JObj [(''type'', JStr ''connection''),
           (''message'', JStr ''Connected to SOC Dashboard''),
           (''timestamp'', JStr (toISOString rt now))]"

definition update_message :: "runtime \<Rightarrow> int \<Rightarrow> json \<Rightarrow> json \<Rightarrow> json" where
  "update_message rt now socStatus alertSummary =
     JObj [(''type'', JStr ''update''),
           (''data'', JObj [(''soc_status'', socStatus),
                            (''alert_summary'', alertSummary),
                            (''timestamp'', JStr (toISOString rt now))])]"

text \<open>\<^verbatim>\<open>ws.send\<close>: the message reaches a client that is connected and open.\<close>

definition ws_send :: "nat \<Rightarrow> json \<Rightarrow> server \<Rightarrow> server" where
  "ws_send c msg s =
     (if \<exists>client \<in> set (clients s). client_id client = c \<and> readyOpen client
      then s\<lparr>outbox := outbox s @ [(c, msg)]\<rparr>
      else s)"

text \<open>The handler of \<^verbatim>\<open>wss.on('connection')\<close>: the greeting, then the 30-second timer.\<close>

definition ws_connection :: "runtime \<Rightarrow> int \<Rightarrow> server \<Rightarrow> server" where
  "ws_connection rt now s =
     (let c = nextClient s;
          s1 = s\<lparr>outbox := outbox s @ [(c, connection_message rt now)]\<rparr>;
          (tid, s2) = setInterval (ClientUpdate c) 30000 s1
      in s2\<lparr>clients := clients s2 @ [\<lparr>client_id = c, readyOpen = True, updateInterval = tid\<rparr>],
             nextClient := c + 1\<rparr>)"

text \<open>The timer's callback for client \<open>c\<close>; its \<^verbatim>\<open>catch\<close> clause logs and returns.\<close>

definition client_update :: "runtime \<Rightarrow> host \<Rightarrow> int \<Rightarrow> nat \<Rightarrow> server \<Rightarrow> server" where
  "client_update rt h now c s =
     (case read_section rt h now ''soc_status.json''
             (Literal (JObj [(''status'', JStr ''operational'')])) s of
        (Inl error, s1) \<Rightarrow> s1
      | (Inr socStatus, s1) \<Rightarrow>
          (case read_section rt h now ''alert_summary.json'' (Literal (JObj [])) s1 of
             (Inl error, s2) \<Rightarrow> s2
           | (Inr alertSummary, s2) \<Rightarrow>
               ws_send c (update_message rt now socStatus alertSummary) s2))"

text \<open>The \<^verbatim>\<open>close\<close> and \<^verbatim>\<open>error\<close> handlers clear the client's timer; closing removes
  the client from \<^verbatim>\<open>wss.clients\<close>.\<close>

definition clear_client_timer :: "nat \<Rightarrow> server \<Rightarrow> server" where
  "clear_client_timer c s =
     fold (\<lambda>client. clearInterval (updateInterval client))
       (filter (\<lambda>client. client_id client = c) (clients s)) s"

definition ws_close :: "nat \<Rightarrow> server \<Rightarrow> server" where
  "ws_close c s =
     (let s1 = clear_client_timer c s
      in s1\<lparr>clients := filter (\<lambda>client. client_id client \<noteq> c) (clients s1)\<rparr>)"

definition ws_closing :: "nat \<Rightarrow> server \<Rightarrow> server" where
  "ws_closing c s =
     s\<lparr>clients := map (\<lambda>client. if client_id client = c then client\<lparr>readyOpen := False\<rparr>
                                  else client) (clients s)\<rparr>"

section \<open>The event loop\<close>

text \<open>
  What can happen to the server, one event at a time: the two scan endpoints (and the
  automatic start five seconds after boot, which is the same call), a timer firing, the
  life of a WebSocket connection, a dashboard request, a manual scan (which runs the
  report generator and clears the cache), and a change of the files from outside.  The
  other read endpoints (logins, network, processes, files, threats, alerts) are not
  events of this model: they follow the pattern of the dashboard endpoint under cache
  keys of their own, and touch nothing but the cache and, through their scripts, the
  files.
\<close>

datatype event =
    StartScanning
  | StopScanning
  | TimerFires nat
  | WsConnect
  | WsClosing nat
  | WsClose nat
  | WsError nat
  | GetDashboard
  | RunScan
  | FilesChanged filesystem

definition timer_callback :: "nat \<Rightarrow> server \<Rightarrow> callback option" where
  "timer_callback tid s = map_option fst (map_of (timers s) tid)"

definition step :: "runtime \<Rightarrow> host \<Rightarrow> int \<Rightarrow> event \<Rightarrow> server \<Rightarrow> server" where
  "step rt h now ev s =
     (case ev of
        StartScanning \<Rightarrow> startRealTimeScanning rt h now s
      | StopScanning \<Rightarrow> stopRealTimeScanning s
      | TimerFires tid \<Rightarrow>
          (case timer_callback tid s of
             None \<Rightarrow> s
           | Some LiveScan \<Rightarrow> performLiveScan rt h now s
           | Some (ClientUpdate c) \<Rightarrow> client_update rt h now c s)
      | WsConnect \<Rightarrow> ws_connection rt now s
      | WsClosing c \<Rightarrow> ws_closing c s
      | WsClose c \<Rightarrow> ws_close c s
      | WsError c \<Rightarrow> clear_client_timer c s
      | GetDashboard \<Rightarrow>
          (let (res, s1) = dashboard rt h now s in s1\<lparr>responses := responses s1 @ [res]\<rparr>)
      | RunScan \<Rightarrow>
          (let (out, s1) = runMonitoringScript h ''generate_report.sh'' s
           in s1\<lparr>dataCache := (\<lambda>key. None)\<rparr>)
      | FilesChanged fs \<Rightarrow> s\<lparr>files := fs\<rparr>)"

text \<open>A run: each event with the time at which it happens.\<close>

fun run :: "runtime \<Rightarrow> host \<Rightarrow> (int \<times> event) list \<Rightarrow> server \<Rightarrow> server" where
  "run rt h [] s = s"
| "run rt h ((now, ev) # evs) s = run rt h evs (step rt h now ev s)"

text \<open>The server at boot: the constructor of \<^verbatim>\<open>RealTimeScanner\<close>, an empty cache, no
  timers and no clients.\<close>

definition boot :: "filesystem \<Rightarrow> server" where
  "boot fs =
     \<lparr>dataCache = (\<lambda>key. None), files = fs, execs = 0, draws = 0,
      isActive = False, scanInterval = None, scanIntervalMs = 10000,
      lastScanTime = None, scanCount = 0,
      timers = [], nextTimer = 0, clients = [], nextClient = 0,
      outbox = [], responses = []\<rparr>"

section \<open>Concrete inputs\<close>

text \<open>
  A runtime, a host and file systems on which the theorems below are run.  The runtime
  parses the two texts \<^verbatim>\<open>[]\<close> and \<^verbatim>\<open>{}\<close>, prints the time as a number and draws
  \<open>1/2\<close> every time.  The host is a Unix one whose scripts fail on their first run and
  succeed from the second on, leaving the files as they are.
\<close>

definition demo_runtime :: runtime where
  "demo_runtime =
     \<lparr>JSON_parse = (\<lambda>text. if text = ''[]'' then Some (JArr [])
                            else if text = ''{}'' then Some (JObj []) else None),
      JSON_stringify = (\<lambda>v. if v = JArr [] then ''[]'' else ''{}''),
      toISOString = (\<lambda>t. show_nat (nat t)),
      Math_random = (\<lambda>k. 1 / 2)\<rparr>"

definition flaky_host :: host where
  "flaky_host =
     \<lparr>win32 = False, cwd = ''/app'', dirname = ''/app/api'',
      exec = (\<lambda>n command timeout fs.
                if n = 0 then (ExecError (NonZeroExit 1), fs) else (ExecOk ''ok'', fs)),
      writable = (\<lambda>path. True)\<rparr>"

text \<open>A host whose scripts need 45 seconds: a child process with a shorter timeout is
  killed, and the callback gets the error.\<close>

definition slow_host :: host where
  "slow_host =
     \<lparr>win32 = False, cwd = ''/app'', dirname = ''/app/api'',
      exec = (\<lambda>n command timeout fs.
                if timeout < 45000 then (ExecError TimedOut, fs) else (ExecOk ''done'', fs)),
      writable = (\<lambda>path. True)\<rparr>"

text \<open>A Windows host, without and with Git Bash.\<close>

definition windows_host :: host where
  "windows_host =
     \<lparr>win32 = True, cwd = ''C:/app'', dirname = ''C:/app/api'',
      exec = (\<lambda>n command timeout fs. (ExecError SpawnFailed, fs)),
      writable = (\<lambda>path. True)\<rparr>"

definition windows_script_only :: filesystem where
  "windows_script_only =
     (\<lambda>path. if path = ''C:/app/api/../backend/generate_report.sh''
             then Content ''#!/bin/bash'' else Missing)"

definition no_files :: filesystem where
  "no_files = (\<lambda>path. Missing)"

definition script_only :: filesystem where
  "script_only =
     (\<lambda>path. if path = ''/app/api/../backend/generate_report.sh''
             then Content ''#!/bin/bash'' else Missing)"

section \<open>Invariants of the event loop\<close>

text \<open>The active timers whose callback is the live scan.\<close>

definition scan_timers :: "server \<Rightarrow> (nat \<times> callback \<times> nat) list" where
  "scan_timers s = filter (\<lambda>timer. fst (snd timer) = LiveScan) (timers s)"

text \<open>
  What every event keeps true of the scheduler: the interval is 10 seconds; timer
  identifiers are unique and below the next one to be given out; the live-scan timers
  are exactly the one the scanner holds, if it holds one; the scanner holds one exactly
  when it is active; and no client's timer is the scanner's.
\<close>

definition scheduler_inv :: "server \<Rightarrow> bool" where
  "scheduler_inv s \<longleftrightarrow>
     scanIntervalMs s = 10000
     \<and> distinct (map fst (timers s))
     \<and> (\<forall>timer \<in> set (timers s). fst timer < nextTimer s)
     \<and> scan_timers s = (case scanInterval s of
                          None \<Rightarrow> []
                        | Some tid \<Rightarrow> [(tid, LiveScan, 10000)])
     \<and> isActive s = (scanInterval s \<noteq> None)
     \<and> (\<forall>client \<in> set (clients s).
           updateInterval client < nextTimer s \<and> scanInterval s \<noteq> Some (updateInterval client))"

text \<open>The part of the state that reading files, running scripts and drawing random
  numbers leave alone.\<close>

definition control_state ::
  "server \<Rightarrow> (bool \<times> nat option \<times> nat \<times> string option \<times> nat)
            \<times> ((nat \<times> callback \<times> nat) list \<times> nat \<times> ws_client list \<times> nat)
            \<times> ((nat \<times> json) list \<times> response list)"
where
  "control_state s =
     ((isActive s, scanInterval s, scanIntervalMs s, lastScanTime s, scanCount s),
      (timers s, nextTimer s, clients s, nextClient s),
      (outbox s, responses s))"

section \<open>The shape of snapshots and messages\<close>

text \<open>The section keys that the specification registers as the contract with the
  presentation layer, in its words and order.\<close>

definition registered_sections :: "string list" where
  "registered_sections =
     [''login_summary'', ''failed_logins'', ''top_attackers'', ''portscans'', ''open_ports'',
      ''connection_stats'', ''suspicious_processes'', ''top_processes'', ''process_summary'',
      ''file_integrity'', ''recent_changes'', ''ip_geolocation'', ''attack_by_country'',
      ''threat_map'', ''security_metrics'', ''alert_summary'', ''executive_summary'']"

definition has_all_sections :: "json \<Rightarrow> bool" where
  "has_all_sections v \<longleftrightarrow> list_all (\<lambda>key. get_field key v \<noteq> None) registered_sections"

text \<open>The property names of the object that the dashboard endpoint builds, and of the
  object that \<^verbatim>\<open>gatherLiveData\<close> builds.\<close>

definition dashboard_keys :: "string list" where
  "dashboard_keys = ''timestamp'' # map fst dashboard_sections"

definition live_keys :: "string list" where
  "live_keys =
     [''timestamp'', ''login_summary'', ''failed_logins'', ''top_attackers'', ''portscans'',
      ''suspicious_processes'', ''open_ports'', ''connection_stats'', ''security_metrics'',
      ''alert_summary'', ''executive_summary'']"

text \<open>A snapshot carries a sequence number, in the specification's data model: a field
  \<^verbatim>\<open>sequence\<close> of the message or of its payload.\<close>

definition carries_sequence :: "json \<Rightarrow> bool" where
  "carries_sequence m \<longleftrightarrow>
     get_field ''sequence'' m \<noteq> None
     \<or> (case get_field ''data'' m of
           None \<Rightarrow> False
         | Some d \<Rightarrow> get_field ''sequence'' d \<noteq> None)"

text \<open>The wire format in the specification's words: a type discriminator out of three,
  a top-level \<^verbatim>\<open>timestamp\<close>, and the payload under \<^verbatim>\<open>data\<close>.\<close>

definition tagged_message :: "json \<Rightarrow> bool" where
  "tagged_message m \<longleftrightarrow>
     get_field ''type'' m \<in> {Some (JStr ''connection''), Some (JStr ''update''),
                               Some (JStr ''live_update'')}
     \<and> get_field ''timestamp'' m \<noteq> None
     \<and> get_field ''data'' m \<noteq> None"

text \<open>The three shapes of message that the server sends.\<close>

definition data_keys :: "json \<Rightarrow> string list" where
  "data_keys m = (case get_field ''data'' m of None \<Rightarrow> [] | Some d \<Rightarrow> keys d)"

definition message_shape :: "json \<Rightarrow> bool" where
  "message_shape m \<longleftrightarrow>
     (get_field ''type'' m = Some (JStr ''connection'')
        \<and> keys m = [''type'', ''message'', ''timestamp''])
     \<or> (get_field ''type'' m = Some (JStr ''update'')
        \<and> keys m = [''type'', ''data'']
        \<and> data_keys m = [''soc_status'', ''alert_summary'', ''timestamp''])
     \<or> (get_field ''type'' m = Some (JStr ''live_update'')
        \<and> keys m = [''type'', ''data'', ''timestamp'']
        \<and> data_keys m = live_keys)"

text \<open>What every event keeps true of the dashboard: the object cached under
  \<^verbatim>\<open>dashboard_data\<close>, if any, and every response given so far have status 200 and the
  property names of the endpoint's object literal.\<close>

definition dashboard_inv :: "server \<Rightarrow> bool" where
  "dashboard_inv s \<longleftrightarrow>
     (case dataCache s ''dashboard_data'' of
        None \<Rightarrow> True
      | Some (d, t) \<Rightarrow> keys d = dashboard_keys)
     \<and> list_all (\<lambda>r. statusCode r = 200 \<and> keys (body r) = dashboard_keys) (responses s)"

text \<open>The probe behind a section has failed when the read of its file yields nothing
  truthy: the file is missing, unreadable or not JSON, and the cache has no fresh entry.\<close>

definition read_fails :: "runtime \<Rightarrow> int \<Rightarrow> string \<Rightarrow> server \<Rightarrow> bool" where
  "read_fails rt now filePath s \<longleftrightarrow>
     (case fst (readJSONFile rt now filePath s) of
        Inl error \<Rightarrow> True
      | Inr data \<Rightarrow> \<not> truthy data)"

text \<open>The snapshots that an event publishes: the \<^verbatim>\<open>live_update\<close> messages among those
  that the event adds to what the server has sent.\<close>

definition published :: "runtime \<Rightarrow> host \<Rightarrow> int \<Rightarrow> event \<Rightarrow> server \<Rightarrow> (nat \<times> json) list" where
  "published rt h now ev s =
     filter (\<lambda>cm. get_field ''type'' (snd cm) = Some (JStr ''live_update''))
       (drop (length (outbox s)) (outbox (step rt h now ev s)))"


section \<open>Fallback values\<close>

text \<open>The value of the right operand of \<^verbatim>\<open>||\<close> in a row of the dashboard object, when
  \<open>k\<close> draws of \<^verbatim>\<open>Math.random\<close> have been made before it is evaluated.\<close>

fun fallback_value :: "runtime \<Rightarrow> int \<Rightarrow> fallback \<Rightarrow> nat \<Rightarrow> json" where
  "fallback_value rt now (Literal v) k = v"
| "fallback_value rt now (Sample dataType) k = fst (generateSampleData rt now dataType k)"

text \<open>A second runtime for the concrete inputs, which differs from the first only in
  its random numbers: it draws \<open>0\<close> every time.\<close>

definition zero_runtime :: runtime where
  "zero_runtime = demo_runtime\<lparr>Math_random := (\<lambda>k. 0)\<rparr>"

text \<open>Files with a login summary that parses (to the empty object), and nothing else.\<close>

definition login_only :: filesystem where
  "login_only = no_files(''/tmp/soc_data/login_summary.json'' := Content ''{}'')"

section \<open>Threat scoring: theorems\<close>



lemma count_gt: "bash_gt (count_value n) k = (k < (int n + 2 ^ 63) mod 2 ^ 64 - 2 ^ 63)" if "0 \<le> k"
  using that by (simp add: bash_gt_def count_value_def wrap64_def)





text \<open>How the login number is read: plain decimal, a leading zero for base 8, an error
  for a digit that base 8 does not have and for two numbers in the file.\<close>

lemma demo_values:
  "failed_logins_value [''60''] = Some 60"
  "failed_logins_value ['''', ''101'', ''''] = Some 101"
  "failed_logins_value [''0101''] = Some 65"
  "failed_logins_value [''08''] = None"
  "failed_logins_value [''12'', ''34''] = None"
  by (simp_all add: failed_logins_value_def bash_constant_def read_base_def digit_value_def
      wrap64_def)






section \<open>The file reader: theorems\<close>

text \<open>
  Claim C10, as amended.  \<^verbatim>\<open>readJSONFile\<close> never throws: for every path and every state
  it returns a value.  When the cache holds a truthy entry for the path that is younger
  than 30 seconds, it returns that entry without looking at the file.  Otherwise it
  returns \<^verbatim>\<open>null\<close> when the file does not exist, when it cannot be read and when its
  text is not valid JSON, and the parsed value when it is.
\<close>

theorem readJSONFile_total:
  "readJSONFile rt now filePath s =
     (Inr (if truthy (cache_get (dataCache s) now filePath)
           then cache_get (dataCache s) now filePath
           else (case files s filePath of
                   Missing \<Rightarrow> JNull
                 | Unreadable \<Rightarrow> JNull
                 | Content text \<Rightarrow>
                     (case JSON_parse rt text of None \<Rightarrow> JNull | Some data \<Rightarrow> data))),
      snd (readJSONFile rt now filePath s))"
  by (simp add: readJSONFile_def readJSONFile_try_def Let_def
      split: file_state.split option.split)

text \<open>The theorem at work on a server that has just booted: a missing file and a file
  that is not JSON give \<^verbatim>\<open>null\<close>, the text \<^verbatim>\<open>[]\<close> gives the empty array.\<close>

theorem readJSONFile_total_witness:
  "readJSONFile demo_runtime 0 ''/tmp/soc_data/portscans.json'' (boot no_files)
     = (Inr JNull, boot no_files)
   \<and> fst (readJSONFile demo_runtime 0 ''/tmp/soc_data/portscans.json''
         (boot (no_files(''/tmp/soc_data/portscans.json'' := Content ''not json''))))
     = Inr JNull
   \<and> fst (readJSONFile demo_runtime 0 ''/tmp/soc_data/portscans.json''
         (boot (no_files(''/tmp/soc_data/portscans.json'' := Content ''[]''))))
     = Inr (JArr [])"
  using readJSONFile_total [of demo_runtime 0 "''/tmp/soc_data/portscans.json''" "boot no_files"]
    readJSONFile_total [of demo_runtime 0 "''/tmp/soc_data/portscans.json''"
      "boot (no_files(''/tmp/soc_data/portscans.json'' := Content ''not json''))"]
    readJSONFile_total [of demo_runtime 0 "''/tmp/soc_data/portscans.json''"
      "boot (no_files(''/tmp/soc_data/portscans.json'' := Content ''[]''))"]
  by (simp add: boot_def no_files_def cache_get_def demo_runtime_def readJSONFile_def
      readJSONFile_try_def)

text \<open>
  Claim C10 as stated fails where it promises \<^verbatim>\<open>null\<close> for every file that does not
  exist.  A file is read at time 0, deleted at 5 seconds and read again at 10 seconds: the
  second read returns the cached array, not \<^verbatim>\<open>null\<close>.
\<close>

theorem readJSONFile_stale_after_delete:
  "(let filePath = ''/tmp/soc_data/portscans.json'';
        s0 = boot (no_files(filePath := Content ''[]''));
        (first, s1) = readJSONFile demo_runtime 0 filePath s0;
        s2 = step demo_runtime flaky_host 5000 (FilesChanged no_files) s1
    in files s2 filePath = Missing
       \<and> fst (readJSONFile demo_runtime 10000 filePath s2) = Inr (JArr [])
       \<and> JArr [] \<noteq> JNull)"
  by (simp add: boot_def no_files_def cache_get_def cache_set_def demo_runtime_def
      readJSONFile_def readJSONFile_try_def step_def ttl_def)

section \<open>The script runner: theorems\<close>

text \<open>
  Claim C5, as amended.  \<^verbatim>\<open>runMonitoringScript\<close> starts the script at most once, with
  no retry and no backoff, and its promise always resolves.  When the script is missing
  it starts no child process and resolves with the message
  \<^verbatim>\<open>Script not found - using sample data\<close>; when the script is there but Git Bash is
  missing on Windows it starts none either and resolves with
  \<^verbatim>\<open>Git Bash not available - using sample data\<close>.  In every other situation it starts
  exactly one child process, under a timeout of 30000 milliseconds, and resolves with the
  standard output when the run succeeds and with a fixed message when it fails, by a
  non-zero exit or by the timeout alike; the message does not carry the error.
\<close>

theorem runMonitoringScript_single_attempt:
  "(files s (path_join (BACKEND_DIR h) scriptName) = Missing \<longrightarrow>
      runMonitoringScript h scriptName s
        = (Resolved ''Script not found - using sample data'', s))
   \<and> (files s (path_join (BACKEND_DIR h) scriptName) \<noteq> Missing \<and> win32 h
        \<and> files s gitBashPath = Missing \<longrightarrow>
      runMonitoringScript h scriptName s
        = (Resolved ''Git Bash not available - using sample data'', s))
   \<and> (files s (path_join (BACKEND_DIR h) scriptName) \<noteq> Missing
        \<and> (win32 h \<longrightarrow> files s gitBashPath \<noteq> Missing) \<longrightarrow>
      runMonitoringScript h scriptName s
        = (let command =
                 (if win32 h
                  then quoted gitBashPath @ '' '' @ quoted (path_join (BACKEND_DIR h) scriptName)
                  else ''bash '' @ quoted (path_join (BACKEND_DIR h) scriptName));
               outcome = exec h (execs s) command 30000 (files s)
           in (Resolved (case fst outcome of
                           ExecOk stdout \<Rightarrow> stdout
                         | ExecError error \<Rightarrow>
                             if win32 h then ''Git Bash execution failed - using sample data''
                             else ''Script execution failed - using sample data''),
               s\<lparr>files := snd outcome, execs := execs s + 1\<rparr>)))
   \<and> (\<exists>out. fst (runMonitoringScript h scriptName s) = Resolved out)
   \<and> execs (snd (runMonitoringScript h scriptName s)) \<le> execs s + 1"
  by (simp add: runMonitoringScript_def Let_def split: prod.split exec_result.split)

text \<open>The theorem at work: a missing script starts no child process; a run that succeeds
  resolves with its output and counts one child process; a script that needs 45 seconds
  is cut off by the timeout and the promise resolves with the failure message; on
  Windows without Git Bash nothing is started.\<close>

theorem runMonitoringScript_single_attempt_witness:
  "runMonitoringScript flaky_host ''generate_report.sh'' (boot no_files)
     = (Resolved ''Script not found - using sample data'', boot no_files)
   \<and> runMonitoringScript flaky_host ''generate_report.sh'' ((boot script_only)\<lparr>execs := 1\<rparr>)
     = (Resolved ''ok'', (boot script_only)\<lparr>execs := 2\<rparr>)
   \<and> runMonitoringScript slow_host ''generate_report.sh'' (boot script_only)
     = (Resolved ''Script execution failed - using sample data'',
        (boot script_only)\<lparr>execs := 1\<rparr>)
   \<and> runMonitoringScript windows_host ''generate_report.sh'' (boot windows_script_only)
     = (Resolved ''Git Bash not available - using sample data'', boot windows_script_only)"
proof -
  have a: "runMonitoringScript flaky_host ''generate_report.sh'' (boot no_files)
     = (Resolved ''Script not found - using sample data'', boot no_files)"
    using runMonitoringScript_single_attempt [of "boot no_files" flaky_host "''generate_report.sh''"]
    by (simp add: boot_def no_files_def)
  have b: "runMonitoringScript flaky_host ''generate_report.sh''
        ((boot script_only)\<lparr>execs := 1\<rparr>)
     = (Resolved ''ok'', (boot script_only)\<lparr>execs := 2\<rparr>)"
    using runMonitoringScript_single_attempt
      [of "(boot script_only)\<lparr>execs := 1\<rparr>" flaky_host "''generate_report.sh''"]
    by (simp add: boot_def script_only_def flaky_host_def BACKEND_DIR_def path_join_def)
  have c: "runMonitoringScript slow_host ''generate_report.sh'' (boot script_only)
     = (Resolved ''Script execution failed - using sample data'',
        (boot script_only)\<lparr>execs := 1\<rparr>)"
    using runMonitoringScript_single_attempt
      [of "boot script_only" slow_host "''generate_report.sh''"]
    by (simp add: boot_def script_only_def slow_host_def BACKEND_DIR_def path_join_def)
  have d: "runMonitoringScript windows_host ''generate_report.sh'' (boot windows_script_only)
     = (Resolved ''Git Bash not available - using sample data'', boot windows_script_only)"
    using runMonitoringScript_single_attempt
      [of "boot windows_script_only" windows_host "''generate_report.sh''"]
    by (simp add: boot_def windows_script_only_def windows_host_def BACKEND_DIR_def
        path_join_def gitBashPath_def)
  from a b c d show ?thesis by blast
qed

text \<open>
  Claim C5 as stated fails: there is no retry.  On a host whose script exits with status
  1 on the first run and would succeed on the second, the runner stops after the first
  run, with one child process started, and resolves with the fixed failure message.
\<close>

theorem runMonitoringScript_no_retry:
  "exec flaky_host 0 (''bash '' @ quoted ''/app/api/../backend/generate_report.sh'') 30000
       script_only
     = (ExecError (NonZeroExit 1), script_only)
   \<and> exec flaky_host 1 (''bash '' @ quoted ''/app/api/../backend/generate_report.sh'') 30000
       script_only
     = (ExecOk ''ok'', script_only)
   \<and> runMonitoringScript flaky_host ''generate_report.sh'' (boot script_only)
     = (Resolved ''Script execution failed - using sample data'',
        (boot script_only)\<lparr>execs := 1\<rparr>)"
  by (simp add: runMonitoringScript_def flaky_host_def boot_def script_only_def BACKEND_DIR_def
      path_join_def Let_def)

section \<open>Frame lemmas: what reading, running and scanning leave alone\<close>

lemma control_state_fields:
  "control_state s' = control_state s \<Longrightarrow>
     isActive s' = isActive s \<and> scanInterval s' = scanInterval s
     \<and> scanIntervalMs s' = scanIntervalMs s \<and> lastScanTime s' = lastScanTime s
     \<and> scanCount s' = scanCount s \<and> timers s' = timers s \<and> nextTimer s' = nextTimer s
     \<and> clients s' = clients s \<and> nextClient s' = nextClient s
     \<and> outbox s' = outbox s \<and> responses s' = responses s"
  by (simp add: control_state_def)

lemma scheduler_inv_control:
  "control_state s' = control_state s \<Longrightarrow> scheduler_inv s' = scheduler_inv s"
  by (simp add: control_state_def scheduler_inv_def scan_timers_def)

lemma control_readJSONFile:
  "control_state (snd (readJSONFile rt now p s)) = control_state s"
  by (simp add: readJSONFile_def readJSONFile_try_def Let_def control_state_def
      split: file_state.split option.split)

lemma readJSONFile_result:
  "fst (readJSONFile rt now p s) =
     Inr (if truthy (cache_get (dataCache s) now p) then cache_get (dataCache s) now p
          else (case files s p of
                  Missing \<Rightarrow> JNull
                | Unreadable \<Rightarrow> JNull
                | Content text \<Rightarrow>
                    (case JSON_parse rt text of None \<Rightarrow> JNull | Some data \<Rightarrow> data)))"
  by (simp add: readJSONFile_def readJSONFile_try_def Let_def
      split: file_state.split option.split)

lemma readJSONFile_Inr: "\<exists>v. fst (readJSONFile rt now p s) = Inr v"
  by (simp add: readJSONFile_def readJSONFile_try_def Let_def
      split: file_state.split option.split)

lemma control_eval_fallback:
  "control_state (snd (eval_fallback rt now fb s)) = control_state s"
  by (cases fb) (simp_all add: control_state_def split: prod.split)

lemma control_read_section:
  "control_state (snd (read_section rt h now f fb s)) = control_state s"
proof -
  obtain r s1 where r: "readJSONFile rt now (path_join (OUTPUT_DIR h) f) s = (r, s1)"
    by (cases "readJSONFile rt now (path_join (OUTPUT_DIR h) f) s")
  then have c1: "control_state s1 = control_state s"
    using control_readJSONFile [of rt now "path_join (OUTPUT_DIR h) f" s] by simp
  show ?thesis
  proof (cases r)
    case (Inl e)
    with r c1 show ?thesis by (simp add: read_section_def)
  next
    case (Inr v)
    with r c1 control_eval_fallback [of rt now fb s1] show ?thesis
      by (simp add: read_section_def case_prod_beta)
  qed
qed

lemma control_read_sections:
  "control_state (snd (read_sections rt h now rows s)) = control_state s"
proof (induction rows arbitrary: s)
  case Nil
  show ?case by simp
next
  case (Cons row rows)
  obtain key f fb where row: "row = (key, f, fb)" by (cases row)
  obtain r s1 where r: "read_section rt h now f fb s = (r, s1)"
    by (cases "read_section rt h now f fb s")
  then have c1: "control_state s1 = control_state s"
    using control_read_section [of rt h now f fb s] by simp
  show ?case
  proof (cases r)
    case (Inl e)
    with row r c1 show ?thesis by simp
  next
    case (Inr v)
    obtain r2 s2 where r2: "read_sections rt h now rows s1 = (r2, s2)"
      by (cases "read_sections rt h now rows s1")
    then have "control_state s2 = control_state s1"
      using Cons.IH [of s1] by simp
    with row r c1 Inr r2 show ?thesis by (cases r2) simp_all
  qed
qed

lemma control_runMonitoringScript:
  "control_state (snd (runMonitoringScript h name s)) = control_state s"
  by (simp add: runMonitoringScript_def Let_def control_state_def
      split: prod.split exec_result.split)

lemma runMonitoringScript_Resolved:
  "\<exists>out. fst (runMonitoringScript h name s) = Resolved out"
  by (simp add: runMonitoringScript_def Let_def split: prod.split exec_result.split)

section \<open>The scheduler invariant, operation by operation\<close>

lemma performLiveScan_effect:
  "performLiveScan rt h now s =
     s\<lparr>lastScanTime := Some (toISOString rt now),
       scanCount := scanCount s + 1,
       draws := snd (gatherLiveData rt now (draws s)),
       files := files (performLiveScan rt h now s),
       outbox := outbox s
         @ map (\<lambda>client. (client_id client,
                  live_update_message rt now (fst (gatherLiveData rt now (draws s)))))
             (filter readyOpen (clients s))\<rparr>"
  by (simp add: performLiveScan_def Let_def case_prod_beta saveLiveData_def
      broadcastLiveUpdate_def)

lemma performLiveScan_scheduler:
  "isActive (performLiveScan rt h now s) = isActive s
   \<and> scanInterval (performLiveScan rt h now s) = scanInterval s
   \<and> scanIntervalMs (performLiveScan rt h now s) = scanIntervalMs s
   \<and> timers (performLiveScan rt h now s) = timers s
   \<and> nextTimer (performLiveScan rt h now s) = nextTimer s
   \<and> clients (performLiveScan rt h now s) = clients s
   \<and> nextClient (performLiveScan rt h now s) = nextClient s
   \<and> responses (performLiveScan rt h now s) = responses s
   \<and> dataCache (performLiveScan rt h now s) = dataCache s
   \<and> scanCount (performLiveScan rt h now s) = scanCount s + 1
   \<and> lastScanTime (performLiveScan rt h now s) = Some (toISOString rt now)"
  by (subst performLiveScan_effect, simp)+

lemma scheduler_inv_performLiveScan:
  "scheduler_inv (performLiveScan rt h now s) = scheduler_inv s"
  by (simp add: scheduler_inv_def scan_timers_def performLiveScan_scheduler)

lemma start_inactive:
  "\<not> isActive s \<Longrightarrow>
   startRealTimeScanning rt h now s =
     performLiveScan rt h now
       (s\<lparr>isActive := True, scanCount := 0,
          timers := timers s @ [(nextTimer s, LiveScan, scanIntervalMs s)],
          nextTimer := nextTimer s + 1,
          scanInterval := Some (nextTimer s)\<rparr>)"
  by (simp add: startRealTimeScanning_def setInterval_def Let_def)

lemma scheduler_inv_start:
  assumes "scheduler_inv s"
  shows "scheduler_inv (startRealTimeScanning rt h now s)"
proof (cases "isActive s")
  case True
  with assms show ?thesis by (simp add: startRealTimeScanning_def)
next
  case False
  with assms have none: "scanInterval s = None" by (simp add: scheduler_inv_def)
  from assms have fresh: "nextTimer s \<notin> fst ` set (timers s)"
    by (auto simp: scheduler_inv_def)
  from assms none fresh show ?thesis
    unfolding start_inactive [OF False] scheduler_inv_performLiveScan
    by (auto simp: scheduler_inv_def scan_timers_def less_Suc_eq)
qed

lemma scheduler_inv_stop:
  assumes "scheduler_inv s"
  shows "scheduler_inv (stopRealTimeScanning s)"
proof (cases "isActive s")
  case False
  with assms show ?thesis by (simp add: stopRealTimeScanning_def)
next
  case True
  with assms obtain tid where tid: "scanInterval s = Some tid"
    by (auto simp: scheduler_inv_def)
  with assms have st: "filter (\<lambda>timer. fst (snd timer) = LiveScan) (timers s) = [(tid, LiveScan, 10000)]"
    by (simp add: scheduler_inv_def scan_timers_def)
  have "filter (\<lambda>timer. fst (snd timer) = LiveScan) (filter (\<lambda>timer. fst timer \<noteq> tid) (timers s))
        = filter (\<lambda>timer. fst timer \<noteq> tid) (filter (\<lambda>timer. fst (snd timer) = LiveScan) (timers s))"
    by (simp add: conj_commute)
  with st have gone: "filter (\<lambda>timer. fst (snd timer) = LiveScan) (filter (\<lambda>timer. fst timer \<noteq> tid) (timers s)) = []"
    by simp
  from assms True tid gone show ?thesis
    by (auto simp: stopRealTimeScanning_def clearInterval_def Let_def scheduler_inv_def
        scan_timers_def distinct_map_filter)
qed

lemma scheduler_inv_ws_connection:
  assumes "scheduler_inv s"
  shows "scheduler_inv (ws_connection rt now s)"
proof -
  from assms have fresh: "nextTimer s \<notin> fst ` set (timers s)"
    by (auto simp: scheduler_inv_def)
  have scan_lt: "scanInterval s \<noteq> Some (nextTimer s)"
  proof
    assume a: "scanInterval s = Some (nextTimer s)"
    with assms have "scan_timers s = [(nextTimer s, LiveScan, 10000)]"
      by (simp add: scheduler_inv_def)
    then have "(nextTimer s, LiveScan, 10000) \<in> set (timers s)"
      by (metis filter_is_subset list.set_intros(1) scan_timers_def subsetD)
    with fresh show False by force
  qed
  from assms fresh scan_lt show ?thesis
    by (auto simp: ws_connection_def setInterval_def Let_def scheduler_inv_def scan_timers_def
        less_Suc_eq)
qed

lemma scheduler_inv_clearInterval:
  assumes "scheduler_inv s" and "scanInterval s \<noteq> Some tid"
  shows "scheduler_inv (clearInterval tid s)"
proof -
  have "filter (\<lambda>timer. fst (snd timer) = LiveScan) (filter (\<lambda>timer. fst timer \<noteq> tid) (timers s))
        = filter (\<lambda>timer. fst timer \<noteq> tid) (filter (\<lambda>timer. fst (snd timer) = LiveScan) (timers s))"
    by (simp add: conj_commute)
  with assms show ?thesis
    by (auto simp: clearInterval_def scheduler_inv_def scan_timers_def distinct_map_filter
        split: option.splits)
qed

lemma clearInterval_fields:
  "clients (clearInterval tid s) = clients s \<and> scanInterval (clearInterval tid s) = scanInterval s
   \<and> outbox (clearInterval tid s) = outbox s \<and> scanCount (clearInterval tid s) = scanCount s
   \<and> isActive (clearInterval tid s) = isActive s \<and> responses (clearInterval tid s) = responses s
   \<and> dataCache (clearInterval tid s) = dataCache s"
  by (simp add: clearInterval_def)

lemma scheduler_inv_fold_clear:
  "scheduler_inv s \<Longrightarrow> \<forall>client \<in> set cs. scanInterval s \<noteq> Some (updateInterval client) \<Longrightarrow>
   scheduler_inv (fold (\<lambda>client. clearInterval (updateInterval client)) cs s)
   \<and> clients (fold (\<lambda>client. clearInterval (updateInterval client)) cs s) = clients s
   \<and> scanInterval (fold (\<lambda>client. clearInterval (updateInterval client)) cs s) = scanInterval s
   \<and> outbox (fold (\<lambda>client. clearInterval (updateInterval client)) cs s) = outbox s
   \<and> scanCount (fold (\<lambda>client. clearInterval (updateInterval client)) cs s) = scanCount s
   \<and> isActive (fold (\<lambda>client. clearInterval (updateInterval client)) cs s) = isActive s
   \<and> responses (fold (\<lambda>client. clearInterval (updateInterval client)) cs s) = responses s
   \<and> dataCache (fold (\<lambda>client. clearInterval (updateInterval client)) cs s) = dataCache s"
proof (induction cs arbitrary: s)
  case Nil
  then show ?case by simp
next
  case (Cons c cs)
  from Cons.prems have "scheduler_inv (clearInterval (updateInterval c) s)"
    by (simp add: scheduler_inv_clearInterval)
  moreover from Cons.prems
  have "\<forall>client \<in> set cs. scanInterval (clearInterval (updateInterval c) s) \<noteq> Some (updateInterval client)"
    by (simp add: clearInterval_fields)
  ultimately show ?case
    using Cons.IH [of "clearInterval (updateInterval c) s"] by (simp add: clearInterval_fields)
qed

lemma clear_client_timer_effect:
  assumes "scheduler_inv s"
  shows "scheduler_inv (clear_client_timer c s)
   \<and> clients (clear_client_timer c s) = clients s
   \<and> scanInterval (clear_client_timer c s) = scanInterval s
   \<and> outbox (clear_client_timer c s) = outbox s
   \<and> scanCount (clear_client_timer c s) = scanCount s
   \<and> isActive (clear_client_timer c s) = isActive s
   \<and> responses (clear_client_timer c s) = responses s
   \<and> dataCache (clear_client_timer c s) = dataCache s"
proof -
  from assms have "\<forall>client \<in> set (filter (\<lambda>client. client_id client = c) (clients s)).
      scanInterval s \<noteq> Some (updateInterval client)"
    by (simp add: scheduler_inv_def)
  with assms show ?thesis
    unfolding clear_client_timer_def by (rule scheduler_inv_fold_clear)
qed

lemma scheduler_inv_clients_update:
  "scheduler_inv s \<Longrightarrow> \<forall>client \<in> set cs. \<exists>old \<in> set (clients s). updateInterval client = updateInterval old \<Longrightarrow>
   scheduler_inv (s\<lparr>clients := cs\<rparr>)"
  by (fastforce simp: scheduler_inv_def scan_timers_def)

lemma scheduler_inv_ws_close:
  assumes "scheduler_inv s"
  shows "scheduler_inv (ws_close c s)"
proof -
  let ?s1 = "clear_client_timer c s"
  from clear_client_timer_effect [OF assms, of c]
  have inv1: "scheduler_inv ?s1" and cl: "clients ?s1 = clients s" by simp_all
  have "scheduler_inv (?s1\<lparr>clients := filter (\<lambda>client. client_id client \<noteq> c) (clients ?s1)\<rparr>)"
    by (rule scheduler_inv_clients_update [OF inv1]) auto
  then show ?thesis by (simp add: ws_close_def Let_def)
qed

lemma scheduler_inv_ws_closing:
  assumes "scheduler_inv s"
  shows "scheduler_inv (ws_closing c s)"
  unfolding ws_closing_def
  by (rule scheduler_inv_clients_update [OF assms]) auto

section \<open>The dashboard endpoint: lemmas\<close>

lemma path_not_dashboard_key: "path_join dir name \<noteq> ''dashboard_data''"
proof
  assume "path_join dir name = ''dashboard_data''"
  then have "CHR ''/'' \<in> set ''dashboard_data''"
    by (metis path_join_def in_set_conv_decomp append_Cons)
  then show False by simp
qed

lemma readJSONFile_cache_other:
  "key \<noteq> p \<Longrightarrow> dataCache (snd (readJSONFile rt now p s)) key = dataCache s key"
  by (simp add: readJSONFile_def readJSONFile_try_def Let_def cache_set_def
      split: file_state.split option.split)

lemma readJSONFile_files: "files (snd (readJSONFile rt now p s)) = files s"
  by (simp add: readJSONFile_def readJSONFile_try_def Let_def
      split: file_state.split option.split)

lemma eval_fallback_cache_files:
  "dataCache (snd (eval_fallback rt now fb s)) = dataCache s
   \<and> files (snd (eval_fallback rt now fb s)) = files s"
  by (cases fb) (simp_all add: case_prod_beta)

lemma read_section_cache_other:
  "key \<noteq> path_join (OUTPUT_DIR h) f \<Longrightarrow>
   dataCache (snd (read_section rt h now f fb s)) key = dataCache s key"
  using readJSONFile_Inr [of rt now "path_join (OUTPUT_DIR h) f" s]
  by (auto simp: read_section_def case_prod_beta eval_fallback_cache_files
      readJSONFile_cache_other split: sum.split)

lemma read_section_files: "files (snd (read_section rt h now f fb s)) = files s"
  by (auto simp: read_section_def case_prod_beta eval_fallback_cache_files readJSONFile_files
      split: sum.split)

lemma read_section_Inr: "\<exists>v. fst (read_section rt h now f fb s) = Inr v"
  using readJSONFile_Inr [of rt now "path_join (OUTPUT_DIR h) f" s]
  by (auto simp: read_section_def case_prod_beta split: sum.split)

lemma read_sections_Inr:
  "\<exists>props. fst (read_sections rt h now rows s) = Inr props \<and> map fst props = map fst rows"
proof (induction rows arbitrary: s)
  case Nil
  show ?case by simp
next
  case (Cons row rows)
  obtain key f fb where row: "row = (key, f, fb)" by (cases row)
  obtain v where v: "fst (read_section rt h now f fb s) = Inr v"
    using read_section_Inr by blast
  obtain props where props:
    "fst (read_sections rt h now rows (snd (read_section rt h now f fb s))) = Inr props"
    "map fst props = map fst rows"
    using Cons.IH by blast
  from row v props show ?case
    by (simp add: case_prod_beta split: sum.split prod.split)
qed

lemma read_sections_cache_dashboard:
  "dataCache (snd (read_sections rt h now rows s)) ''dashboard_data'' = dataCache s ''dashboard_data''"
proof (induction rows arbitrary: s)
  case Nil
  show ?case by simp
next
  case (Cons row rows)
  obtain key f fb where row: "row = (key, f, fb)" by (cases row)
  have one: "dataCache (snd (read_section rt h now f fb s)) ''dashboard_data'' = dataCache s ''dashboard_data''"
    by (rule read_section_cache_other) (simp add: path_not_dashboard_key [symmetric])
  from row one Cons.IH [of "snd (read_section rt h now f fb s)"] show ?case
    by (cases "read_section rt h now f fb s"; cases "fst (read_section rt h now f fb s)";
        cases "read_sections rt h now rows (snd (read_section rt h now f fb s))";
        cases "fst (read_sections rt h now rows (snd (read_section rt h now f fb s)))") auto
qed

lemma dashboard_status: "statusCode (fst (dashboard rt h now s)) = 200"
proof (cases "truthy (cache_get (dataCache s) now ''dashboard_data'')")
  case True
  then show ?thesis by (simp add: dashboard_def)
next
  case False
  obtain out where out: "fst (runMonitoringScript h ''generate_report.sh'' s) = Resolved out"
    using runMonitoringScript_Resolved by blast
  obtain props where props:
    "fst (read_sections rt h now dashboard_sections (snd (runMonitoringScript h ''generate_report.sh'' s))) = Inr props"
    using read_sections_Inr by blast
  from False out props show ?thesis
    by (simp add: dashboard_def Let_def case_prod_beta)
qed

lemma dashboard_fresh:
  assumes "\<not> truthy (cache_get (dataCache s) now ''dashboard_data'')"
  shows "\<exists>props. map fst props = map fst dashboard_sections
     \<and> fst (read_sections rt h now dashboard_sections
              (snd (runMonitoringScript h ''generate_report.sh'' s))) = Inr props
     \<and> dashboard rt h now s =
         (\<lparr>statusCode = 200, body = JObj ((''timestamp'', JStr (toISOString rt now)) # props)\<rparr>,
          (snd (read_sections rt h now dashboard_sections
              (snd (runMonitoringScript h ''generate_report.sh'' s))))
          \<lparr>dataCache := cache_set (dataCache (snd (read_sections rt h now dashboard_sections
              (snd (runMonitoringScript h ''generate_report.sh'' s))))) now ''dashboard_data''
                 (JObj ((''timestamp'', JStr (toISOString rt now)) # props))\<rparr>)"
proof -
  obtain out where out: "fst (runMonitoringScript h ''generate_report.sh'' s) = Resolved out"
    using runMonitoringScript_Resolved by blast
  obtain props where props:
    "fst (read_sections rt h now dashboard_sections (snd (runMonitoringScript h ''generate_report.sh'' s))) = Inr props"
    "map fst props = map fst dashboard_sections"
    using read_sections_Inr by blast
  from assms out props show ?thesis
    by (simp add: dashboard_def Let_def case_prod_beta)
qed

lemma dashboard_cached:
  assumes "truthy (cache_get (dataCache s) now ''dashboard_data'')"
  shows "dashboard rt h now s = (\<lparr>statusCode = 200, body = cache_get (dataCache s) now ''dashboard_data''\<rparr>, s)"
  using assms by (simp add: dashboard_def)

lemma control_dashboard: "control_state (snd (dashboard rt h now s)) = control_state s"
proof (cases "truthy (cache_get (dataCache s) now ''dashboard_data'')")
  case True
  then show ?thesis by (simp add: dashboard_cached)
next
  case False
  from dashboard_fresh [OF False, of rt h] obtain props where
    d: "snd (dashboard rt h now s) =
          (snd (read_sections rt h now dashboard_sections
              (snd (runMonitoringScript h ''generate_report.sh'' s))))
          \<lparr>dataCache := cache_set (dataCache (snd (read_sections rt h now dashboard_sections
              (snd (runMonitoringScript h ''generate_report.sh'' s))))) now ''dashboard_data''
                 (JObj ((''timestamp'', JStr (toISOString rt now)) # props))\<rparr>"
    by auto
  have "control_state (snd (dashboard rt h now s))
        = control_state (snd (read_sections rt h now dashboard_sections
              (snd (runMonitoringScript h ''generate_report.sh'' s))))"
    unfolding d by (simp add: control_state_def)
  then show ?thesis
    by (simp add: control_read_sections control_runMonitoringScript)
qed

lemma dashboard_keeps_keys:
  assumes "case dataCache s ''dashboard_data'' of None \<Rightarrow> True | Some (d, t) \<Rightarrow> keys d = dashboard_keys"
  shows "keys (body (fst (dashboard rt h now s))) = dashboard_keys
     \<and> (case dataCache (snd (dashboard rt h now s)) ''dashboard_data'' of
          None \<Rightarrow> True | Some (d, t) \<Rightarrow> keys d = dashboard_keys)"
proof (cases "truthy (cache_get (dataCache s) now ''dashboard_data'')")
  case True
  with assms show ?thesis
    by (auto simp: dashboard_cached cache_get_def split: option.splits if_splits)
next
  case False
  from dashboard_fresh [OF False, of rt h] obtain props where
    "map fst props = map fst dashboard_sections"
    "dashboard rt h now s =
         (\<lparr>statusCode = 200, body = JObj ((''timestamp'', JStr (toISOString rt now)) # props)\<rparr>,
          (snd (read_sections rt h now dashboard_sections
              (snd (runMonitoringScript h ''generate_report.sh'' s))))
          \<lparr>dataCache := cache_set (dataCache (snd (read_sections rt h now dashboard_sections
              (snd (runMonitoringScript h ''generate_report.sh'' s))))) now ''dashboard_data''
                 (JObj ((''timestamp'', JStr (toISOString rt now)) # props))\<rparr>)"
    by blast
  then show ?thesis by (simp add: dashboard_keys_def cache_set_def)
qed

section \<open>The scheduler invariant along a run\<close>

lemma fold_clear_fields:
  "clients (fold (\<lambda>client. clearInterval (updateInterval client)) cs s) = clients s
   \<and> scanInterval (fold (\<lambda>client. clearInterval (updateInterval client)) cs s) = scanInterval s
   \<and> outbox (fold (\<lambda>client. clearInterval (updateInterval client)) cs s) = outbox s
   \<and> scanCount (fold (\<lambda>client. clearInterval (updateInterval client)) cs s) = scanCount s
   \<and> isActive (fold (\<lambda>client. clearInterval (updateInterval client)) cs s) = isActive s
   \<and> responses (fold (\<lambda>client. clearInterval (updateInterval client)) cs s) = responses s
   \<and> dataCache (fold (\<lambda>client. clearInterval (updateInterval client)) cs s) = dataCache s"
proof (induction cs arbitrary: s)
  case Nil
  show ?case by simp
next
  case (Cons c cs)
  show ?case
    using Cons.IH [of "clearInterval (updateInterval c) s"] by (simp add: clearInterval_fields)
qed

lemma clear_client_timer_fields:
  "clients (clear_client_timer c s) = clients s
   \<and> scanInterval (clear_client_timer c s) = scanInterval s
   \<and> outbox (clear_client_timer c s) = outbox s
   \<and> scanCount (clear_client_timer c s) = scanCount s
   \<and> isActive (clear_client_timer c s) = isActive s
   \<and> responses (clear_client_timer c s) = responses s
   \<and> dataCache (clear_client_timer c s) = dataCache s"
  unfolding clear_client_timer_def by (rule fold_clear_fields)

lemma ws_send_fields:
  "control_state (ws_send c m s) = control_state (s\<lparr>outbox := outbox (ws_send c m s)\<rparr>)
   \<and> dataCache (ws_send c m s) = dataCache s
   \<and> (outbox (ws_send c m s) = outbox s \<or> outbox (ws_send c m s) = outbox s @ [(c, m)])"
  by (simp add: ws_send_def control_state_def)

lemma client_update_effect:
  "\<exists>socStatus alertSummary.
     control_state (client_update rt h now c s)
       = control_state (s\<lparr>outbox := outbox (client_update rt h now c s)\<rparr>)
     \<and> dataCache (client_update rt h now c s) ''dashboard_data'' = dataCache s ''dashboard_data''
     \<and> (outbox (client_update rt h now c s) = outbox s
        \<or> outbox (client_update rt h now c s)
            = outbox s @ [(c, update_message rt now socStatus alertSummary)])"
proof -
  let ?fb1 = "Literal (JObj [(''status'', JStr ''operational'')])"
  let ?r1 = "read_section rt h now ''soc_status.json'' ?fb1 s"
  let ?r2 = "read_section rt h now ''alert_summary.json'' (Literal (JObj [])) (snd ?r1)"
  obtain v1 where v1: "fst ?r1 = Inr v1" using read_section_Inr by blast
  obtain v2 where v2: "fst ?r2 = Inr v2" using read_section_Inr by blast
  have cu: "client_update rt h now c s = ws_send c (update_message rt now v1 v2) (snd ?r2)"
    using v1 v2 by (simp add: client_update_def case_prod_beta)
  have c2: "control_state (snd ?r2) = control_state s"
    by (simp add: control_read_section)
  have d2: "dataCache (snd ?r2) ''dashboard_data'' = dataCache s ''dashboard_data''"
    by (simp add: read_section_cache_other path_not_dashboard_key [symmetric])
  from c2 have f2: "outbox (snd ?r2) = outbox s" by (simp add: control_state_def)
  have "control_state (client_update rt h now c s)
       = control_state (s\<lparr>outbox := outbox (client_update rt h now c s)\<rparr>)"
    unfolding cu using c2 by (simp add: ws_send_def control_state_def)
  moreover have "dataCache (client_update rt h now c s) ''dashboard_data'' = dataCache s ''dashboard_data''"
    unfolding cu using d2 by (simp add: ws_send_fields)
  moreover have "outbox (client_update rt h now c s) = outbox s
        \<or> outbox (client_update rt h now c s) = outbox s @ [(c, update_message rt now v1 v2)]"
    unfolding cu using f2 ws_send_fields [of c "update_message rt now v1 v2" "snd ?r2"] by simp
  ultimately show ?thesis by blast
qed

lemma scheduler_inv_outbox: "scheduler_inv (s\<lparr>outbox := ob\<rparr>) = scheduler_inv s"
  by (simp add: scheduler_inv_def scan_timers_def)

lemma scheduler_inv_client_update:
  "scheduler_inv (client_update rt h now c s) = scheduler_inv s"
proof -
  from client_update_effect [of rt h now c s]
  have "control_state (client_update rt h now c s)
       = control_state (s\<lparr>outbox := outbox (client_update rt h now c s)\<rparr>)" by blast
  then show ?thesis
    using scheduler_inv_control scheduler_inv_outbox by blast
qed

lemma scheduler_inv_step:
  assumes "scheduler_inv s"
  shows "scheduler_inv (step rt h now ev s)"
proof (cases ev)
  case StartScanning
  with assms show ?thesis by (simp add: step_def scheduler_inv_start)
next
  case StopScanning
  with assms show ?thesis by (simp add: step_def scheduler_inv_stop)
next
  case (TimerFires tid)
  with assms show ?thesis
    by (simp add: step_def scheduler_inv_performLiveScan scheduler_inv_client_update
        split: option.split callback.split)
next
  case WsConnect
  with assms show ?thesis by (simp add: step_def scheduler_inv_ws_connection)
next
  case (WsClosing c)
  with assms show ?thesis by (simp add: step_def scheduler_inv_ws_closing)
next
  case (WsClose c)
  with assms show ?thesis by (simp add: step_def scheduler_inv_ws_close)
next
  case (WsError c)
  with assms show ?thesis by (simp add: step_def clear_client_timer_effect)
next
  case GetDashboard
  have "scheduler_inv (snd (dashboard rt h now s)) = scheduler_inv s"
    by (rule scheduler_inv_control) (rule control_dashboard)
  with assms GetDashboard show ?thesis
    by (simp add: step_def case_prod_beta scheduler_inv_def scan_timers_def)
next
  case RunScan
  have "scheduler_inv (snd (runMonitoringScript h ''generate_report.sh'' s)) = scheduler_inv s"
    by (rule scheduler_inv_control) (rule control_runMonitoringScript)
  with assms RunScan show ?thesis
    by (simp add: step_def case_prod_beta scheduler_inv_def scan_timers_def)
next
  case (FilesChanged fs)
  with assms show ?thesis by (simp add: step_def scheduler_inv_def scan_timers_def)
qed

lemma scheduler_inv_boot: "scheduler_inv (boot fs)"
  by (simp add: boot_def scheduler_inv_def scan_timers_def)

lemma scheduler_inv_run: "scheduler_inv s \<Longrightarrow> scheduler_inv (run rt h evs s)"
proof (induction evs arbitrary: s)
  case Nil
  then show ?case by simp
next
  case (Cons e evs)
  obtain now ev where e: "e = (now, ev)" by (cases e)
  from Cons.prems have "scheduler_inv (step rt h now ev s)" by (rule scheduler_inv_step)
  then show ?case unfolding e by (simp add: Cons.IH)
qed

lemma scan_timer_lookup:
  assumes "timer_callback tid s = Some LiveScan"
  shows "scan_timers s \<noteq> []"
proof -
  from assms obtain ms where "map_of (timers s) tid = Some (LiveScan, ms)"
    by (auto simp: timer_callback_def)
  then have "(tid, LiveScan, ms) \<in> set (timers s)" by (rule map_of_SomeD)
  then have "(tid, LiveScan, ms) \<in> set (scan_timers s)" by (simp add: scan_timers_def)
  then show ?thesis by auto
qed

lemma stopped_stays_stopped:
  assumes inv: "scheduler_inv s" and off: "\<not> isActive s" and ev: "ev \<noteq> StartScanning"
  shows "\<not> isActive (step rt h now ev s) \<and> scanCount (step rt h now ev s) = scanCount s"
proof (cases ev)
  case StartScanning
  with ev show ?thesis by simp
next
  case StopScanning
  with off show ?thesis by (simp add: step_def stopRealTimeScanning_def)
next
  case (TimerFires tid)
  from inv off have "scan_timers s = []" by (simp add: scheduler_inv_def)
  with scan_timer_lookup have no: "timer_callback tid s \<noteq> Some LiveScan" by blast
  have cu: "\<And>c. isActive (client_update rt h now c s) = isActive s
        \<and> scanCount (client_update rt h now c s) = scanCount s"
    using client_update_effect [of rt h now _ s] by (auto simp: control_state_def)
  from TimerFires off no cu show ?thesis
    by (simp add: step_def split: option.split callback.split)
next
  case WsConnect
  with off show ?thesis by (simp add: step_def ws_connection_def setInterval_def Let_def)
next
  case (WsClosing c)
  with off show ?thesis by (simp add: step_def ws_closing_def)
next
  case (WsClose c)
  with off show ?thesis by (simp add: step_def ws_close_def Let_def clear_client_timer_fields)
next
  case (WsError c)
  with off show ?thesis by (simp add: step_def clear_client_timer_fields)
next
  case GetDashboard
  from control_dashboard [of rt h now s]
  have "isActive (snd (dashboard rt h now s)) = isActive s
      \<and> scanCount (snd (dashboard rt h now s)) = scanCount s"
    by (simp add: control_state_def)
  with GetDashboard off show ?thesis by (simp add: step_def case_prod_beta)
next
  case RunScan
  from control_runMonitoringScript [of h "''generate_report.sh''" s]
  have "isActive (snd (runMonitoringScript h ''generate_report.sh'' s)) = isActive s
      \<and> scanCount (snd (runMonitoringScript h ''generate_report.sh'' s)) = scanCount s"
    by (simp add: control_state_def)
  with RunScan off show ?thesis by (simp add: step_def case_prod_beta)
next
  case (FilesChanged fs)
  with off show ?thesis by (simp add: step_def)
qed

lemma stopped_run:
  "scheduler_inv s \<Longrightarrow> \<not> isActive s \<Longrightarrow> list_all (\<lambda>e. snd e \<noteq> StartScanning) evs \<Longrightarrow>
   \<not> isActive (run rt h evs s) \<and> scanCount (run rt h evs s) = scanCount s"
proof (induction evs arbitrary: s)
  case Nil
  then show ?case by simp
next
  case (Cons e evs)
  obtain now ev where e: "e = (now, ev)" by (cases e)
  with Cons.prems have ev: "ev \<noteq> StartScanning" and rest: "list_all (\<lambda>e. snd e \<noteq> StartScanning) evs"
    by simp_all
  from stopped_stays_stopped [OF Cons.prems(1,2) ev, of rt h now]
  have off: "\<not> isActive (step rt h now ev s)" and cnt: "scanCount (step rt h now ev s) = scanCount s"
    by simp_all
  have inv: "scheduler_inv (step rt h now ev s)" using Cons.prems(1) by (rule scheduler_inv_step)
  from Cons.IH [OF inv off rest] cnt show ?case unfolding e by simp
qed

lemma performLiveScan_outbox:
  "outbox (performLiveScan rt h now s) =
     outbox s
       @ map (\<lambda>client. (client_id client,
                live_update_message rt now (fst (gatherLiveData rt now (draws s)))))
           (filter readyOpen (clients s))"
  by (subst performLiveScan_effect) simp

section \<open>The scan controller: theorems\<close>

text \<open>The timer that the scanner holds runs the live scan, each time it fires.\<close>

lemma scan_timer_callback:
  assumes inv: "scheduler_inv s" and tid: "scanInterval s = Some tid"
  shows "timer_callback tid s = Some LiveScan"
proof -
  from inv tid have "scan_timers s = [(tid, LiveScan, 10000)]" by (simp add: scheduler_inv_def)
  then have "(tid, LiveScan, 10000) \<in> set (scan_timers s)" by simp
  then have "(tid, LiveScan, 10000) \<in> set (timers s)" by (simp add: scan_timers_def)
  moreover from inv have "distinct (map fst (timers s))" by (simp add: scheduler_inv_def)
  ultimately have "map_of (timers s) tid = Some (LiveScan, 10000)" by (rule map_of_is_SomeI [rotated])
  then show ?thesis by (simp add: timer_callback_def)
qed

lemma scan_timer_fires:
  assumes inv: "scheduler_inv s" and tid: "scanInterval s = Some tid"
  shows "step rt h now (TimerFires tid) s = performLiveScan rt h now s"
  using scan_timer_callback [OF inv tid] by (simp add: step_def)

lemma scan_timer_fires_repeatedly:
  assumes "scheduler_inv s" and "scanInterval s = Some tid"
  shows "scanCount (run rt h (map (\<lambda>t. (t, TimerFires tid)) ts) s) = scanCount s + length ts"
  using assms
proof (induction ts arbitrary: s)
  case Nil
  then show ?case by simp
next
  case (Cons t ts)
  have fired: "step rt h t (TimerFires tid) s = performLiveScan rt h t s"
    using Cons.prems by (rule scan_timer_fires)
  have "scheduler_inv (performLiveScan rt h t s)"
    using Cons.prems(1) by (simp add: scheduler_inv_performLiveScan)
  moreover have "scanInterval (performLiveScan rt h t s) = Some tid"
    using Cons.prems(2) by (simp add: performLiveScan_scheduler)
  ultimately have "scanCount (run rt h (map (\<lambda>t. (t, TimerFires tid)) ts) (performLiveScan rt h t s))
      = scanCount (performLiveScan rt h t s) + length ts"
    by (rule Cons.IH)
  then show ?case by (simp add: fired performLiveScan_scheduler)
qed

text \<open>
  Claim C6.  The scan controller has two states, stopped and running (\<^verbatim>\<open>isActive\<close>).
  In every state \<open>s\<close> that the server reaches from boot, by any events at any times:
  the active live-scan timers are none when stopped and exactly one, of 10 seconds, when
  running.  Start when running changes nothing (no second timer, no extra cycle).  Start
  when stopped makes the scanner running, adds one live-scan timer of 10 seconds and
  performs one cycle at once: the scan count is 1 and one live update goes to every open
  client.  The cycle is periodic: when the scanner is running, each firing of its timer
  performs one cycle (the scan count goes up by one and a live update goes to every open
  client) and leaves the timer in place, so that any number of firings performs as many
  cycles; this holds of the timer that Start has just set as well.  Stop when stopped
  changes nothing.  Stop when running makes the scanner stopped and leaves no live-scan
  timer, and from then on, as long as Start is not called again, no event starts a
  cycle: the scan count stays what it was.
\<close>

theorem scan_controller_two_states:
  "(let s = run rt h evs (boot fs);
        started = startRealTimeScanning rt h now s;
        stopped = stopRealTimeScanning s;
        fired = step rt h t (TimerFires (the (scanInterval s))) s
    in scan_timers s = (if isActive s then [(the (scanInterval s), LiveScan, 10000)] else [])
       \<and> (isActive s \<longrightarrow> started = s)
       \<and> (\<not> isActive s \<longrightarrow>
            isActive started
            \<and> scan_timers started = [(nextTimer s, LiveScan, 10000)]
            \<and> scanInterval started = Some (nextTimer s)
            \<and> scanCount started = 1
            \<and> lastScanTime started = Some (toISOString rt now)
            \<and> outbox started = outbox s
                 @ map (\<lambda>client. (client_id client,
                          live_update_message rt now (fst (gatherLiveData rt now (draws s)))))
                     (filter readyOpen (clients s))
            \<and> (\<forall>ts. scanCount (run rt h (map (\<lambda>t. (t, TimerFires (nextTimer s))) ts) started)
                      = 1 + length ts))
       \<and> (isActive s \<longrightarrow>
            isActive fired
            \<and> scan_timers fired = scan_timers s
            \<and> scanInterval fired = scanInterval s
            \<and> scanCount fired = scanCount s + 1
            \<and> lastScanTime fired = Some (toISOString rt t)
            \<and> outbox fired = outbox s
                 @ map (\<lambda>client. (client_id client,
                          live_update_message rt t (fst (gatherLiveData rt t (draws s)))))
                     (filter readyOpen (clients s))
            \<and> (\<forall>ts. scanCount (run rt h (map (\<lambda>t. (t, TimerFires (the (scanInterval s)))) ts) s)
                      = scanCount s + length ts))
       \<and> (\<not> isActive s \<longrightarrow> stopped = s)
       \<and> (isActive s \<longrightarrow>
            \<not> isActive stopped \<and> scan_timers stopped = [] \<and> scanInterval stopped = None
            \<and> (\<forall>later. list_all (\<lambda>e. snd e \<noteq> StartScanning) later \<longrightarrow>
                  \<not> isActive (run rt h later stopped)
                  \<and> scanCount (run rt h later stopped) = scanCount s)))"
proof -
  define s where "s = run rt h evs (boot fs)"
  have inv: "scheduler_inv s"
    unfolding s_def by (rule scheduler_inv_run) (rule scheduler_inv_boot)
  have timers_ok: "scan_timers s = (if isActive s then [(the (scanInterval s), LiveScan, 10000)] else [])"
    using inv by (auto simp: scheduler_inv_def)
  have start_on: "isActive s \<Longrightarrow> startRealTimeScanning rt h now s = s"
    by (simp add: startRealTimeScanning_def)
  have stop_off: "\<not> isActive s \<Longrightarrow> stopRealTimeScanning s = s"
    by (simp add: stopRealTimeScanning_def)
  have start_off: "isActive (startRealTimeScanning rt h now s)
            \<and> scan_timers (startRealTimeScanning rt h now s) = [(nextTimer s, LiveScan, 10000)]
            \<and> scanInterval (startRealTimeScanning rt h now s) = Some (nextTimer s)
            \<and> scanCount (startRealTimeScanning rt h now s) = 1
            \<and> lastScanTime (startRealTimeScanning rt h now s) = Some (toISOString rt now)
            \<and> outbox (startRealTimeScanning rt h now s) = outbox s
                 @ map (\<lambda>client. (client_id client,
                          live_update_message rt now (fst (gatherLiveData rt now (draws s)))))
                     (filter readyOpen (clients s))
            \<and> (\<forall>ts. scanCount (run rt h (map (\<lambda>t. (t, TimerFires (nextTimer s))) ts)
                        (startRealTimeScanning rt h now s))
                      = 1 + length ts)" if off: "\<not> isActive s"
  proof -
    from inv off have "scan_timers s = []" and ms: "scanIntervalMs s = 10000"
      by (simp_all add: scheduler_inv_def)
    then have first: "isActive (startRealTimeScanning rt h now s)
            \<and> scan_timers (startRealTimeScanning rt h now s) = [(nextTimer s, LiveScan, 10000)]
            \<and> scanInterval (startRealTimeScanning rt h now s) = Some (nextTimer s)
            \<and> scanCount (startRealTimeScanning rt h now s) = 1
            \<and> lastScanTime (startRealTimeScanning rt h now s) = Some (toISOString rt now)
            \<and> outbox (startRealTimeScanning rt h now s) = outbox s
                 @ map (\<lambda>client. (client_id client,
                          live_update_message rt now (fst (gatherLiveData rt now (draws s)))))
                     (filter readyOpen (clients s))"
      unfolding start_inactive [OF off]
      by (simp add: scan_timers_def performLiveScan_scheduler performLiveScan_outbox)
    have inv': "scheduler_inv (startRealTimeScanning rt h now s)"
      using inv by (rule scheduler_inv_start)
    from first have "scanInterval (startRealTimeScanning rt h now s) = Some (nextTimer s)"
      and "scanCount (startRealTimeScanning rt h now s) = 1"
      by blast+
    with scan_timer_fires_repeatedly [OF inv', of "nextTimer s" rt h]
    have "\<forall>ts. scanCount (run rt h (map (\<lambda>t. (t, TimerFires (nextTimer s))) ts)
                        (startRealTimeScanning rt h now s))
                      = 1 + length ts"
      by simp
    with first show ?thesis by blast
  qed
  have fire_on: "isActive (step rt h t (TimerFires (the (scanInterval s))) s)
            \<and> scan_timers (step rt h t (TimerFires (the (scanInterval s))) s) = scan_timers s
            \<and> scanInterval (step rt h t (TimerFires (the (scanInterval s))) s) = scanInterval s
            \<and> scanCount (step rt h t (TimerFires (the (scanInterval s))) s) = scanCount s + 1
            \<and> lastScanTime (step rt h t (TimerFires (the (scanInterval s))) s)
                = Some (toISOString rt t)
            \<and> outbox (step rt h t (TimerFires (the (scanInterval s))) s) = outbox s
                 @ map (\<lambda>client. (client_id client,
                          live_update_message rt t (fst (gatherLiveData rt t (draws s)))))
                     (filter readyOpen (clients s))
            \<and> (\<forall>ts. scanCount (run rt h (map (\<lambda>t. (t, TimerFires (the (scanInterval s)))) ts) s)
                      = scanCount s + length ts)" if on: "isActive s"
  proof -
    from inv on obtain tid where tid: "scanInterval s = Some tid" by (auto simp: scheduler_inv_def)
    have fired: "step rt h t (TimerFires tid) s = performLiveScan rt h t s"
      using inv tid by (rule scan_timer_fires)
    from on tid scan_timer_fires_repeatedly [OF inv tid, of rt h] show ?thesis
      by (simp add: fired scan_timers_def performLiveScan_scheduler performLiveScan_outbox)
  qed
  have stop_on: "\<not> isActive (stopRealTimeScanning s) \<and> scan_timers (stopRealTimeScanning s) = []
            \<and> scanInterval (stopRealTimeScanning s) = None
            \<and> (\<forall>later. list_all (\<lambda>e. snd e \<noteq> StartScanning) later \<longrightarrow>
                  \<not> isActive (run rt h later (stopRealTimeScanning s))
                  \<and> scanCount (run rt h later (stopRealTimeScanning s)) = scanCount s)"
    if on: "isActive s"
  proof -
    have inv': "scheduler_inv (stopRealTimeScanning s)" using inv by (rule scheduler_inv_stop)
    from inv on obtain tid where tid: "scanInterval s = Some tid" by (auto simp: scheduler_inv_def)
    with on have off': "\<not> isActive (stopRealTimeScanning s)"
      and none: "scanInterval (stopRealTimeScanning s) = None"
      and cnt: "scanCount (stopRealTimeScanning s) = scanCount s"
      by (simp_all add: stopRealTimeScanning_def clearInterval_def Let_def)
    from inv' none have "scan_timers (stopRealTimeScanning s) = []" by (simp add: scheduler_inv_def)
    with off' none cnt stopped_run [OF inv' off', of _ rt h] show ?thesis by simp
  qed
  from timers_ok start_on stop_off start_off fire_on stop_on show ?thesis
    unfolding Let_def s_def [symmetric] by blast
qed


text \<open>The theorem at work: Start twice in a row leaves the scanner running with the
  single timer 0 and one cycle done; the third Start changes nothing; one firing of timer
  0 performs the second cycle, and three firings bring the count to 4; after Stop no
  timer is left, and a late firing of timer 0, a dashboard request and a second Stop
  start no cycle.\<close>

theorem scan_controller_two_states_witness:
  "(let s = run demo_runtime flaky_host [(0, StartScanning), (7, StartScanning)] (boot no_files);
        stopped = stopRealTimeScanning s
    in isActive s \<and> scanCount s = 1
       \<and> scan_timers s = [(0, LiveScan, 10000)]
       \<and> startRealTimeScanning demo_runtime flaky_host 9 s = s
       \<and> scanCount (step demo_runtime flaky_host 10007 (TimerFires 0) s) = 2
       \<and> scanCount (run demo_runtime flaky_host
            [(10007, TimerFires 0), (20007, TimerFires 0), (30007, TimerFires 0)] s) = 4
       \<and> \<not> isActive stopped \<and> scan_timers stopped = []
       \<and> scanCount (run demo_runtime flaky_host
            [(10000, TimerFires 0), (20000, GetDashboard), (30000, StopScanning)] stopped) = 1)"
proof -
  define s where "s = run demo_runtime flaky_host [(0, StartScanning), (7, StartScanning)] (boot no_files)"
  define later :: "(int \<times> event) list"
    where "later = [(10000, TimerFires 0), (20000, GetDashboard), (30000, StopScanning)]"
  have on: "isActive s" and tid: "scanInterval s = Some 0" and cnt: "scanCount s = 1"
    by (simp_all add: s_def step_def startRealTimeScanning_def setInterval_def Let_def
        performLiveScan_scheduler boot_def)
  have quiet: "list_all (\<lambda>e. snd e \<noteq> StartScanning) later"
    by (simp add: later_def)
  from scan_controller_two_states
    [of demo_runtime flaky_host "[(0, StartScanning), (7, StartScanning)]" no_files 9 10007] on tid
  have main: "scan_timers s = [(0, LiveScan, 10000)]
      \<and> startRealTimeScanning demo_runtime flaky_host 9 s = s
      \<and> scanCount (step demo_runtime flaky_host 10007 (TimerFires 0) s) = scanCount s + 1
      \<and> (\<forall>ts. scanCount (run demo_runtime flaky_host (map (\<lambda>t. (t, TimerFires 0)) ts) s)
                      = scanCount s + length ts)
      \<and> \<not> isActive (stopRealTimeScanning s) \<and> scan_timers (stopRealTimeScanning s) = []
      \<and> (\<forall>later. list_all (\<lambda>e. snd e \<noteq> StartScanning) later \<longrightarrow>
            scanCount (run demo_runtime flaky_host later (stopRealTimeScanning s)) = scanCount s)"
    unfolding Let_def s_def [symmetric] by simp
  then have "scanCount (run demo_runtime flaky_host later (stopRealTimeScanning s)) = scanCount s"
    using quiet by blast
  moreover from main have "scanCount (run demo_runtime flaky_host
        (map (\<lambda>t. (t, TimerFires 0)) [10007, 20007, 30007]) s) = scanCount s + length [10007::int, 20007, 30007]"
    by blast
  then have "scanCount (run demo_runtime flaky_host
            [(10007, TimerFires 0), (20007, TimerFires 0), (30007, TimerFires 0)] s) = 4"
    using cnt by (simp del: run.simps)
  ultimately show ?thesis
    using main on cnt
    unfolding Let_def s_def [symmetric] later_def [symmetric] by simp
qed

section \<open>Messages to WebSocket clients: lemmas\<close>

lemma gatherLiveData_keys: "keys (fst (gatherLiveData rt now k)) = live_keys"
  by (simp add: gatherLiveData_def Let_def case_prod_beta live_keys_def)

lemma live_update_shape:
  "message_shape (live_update_message rt now (fst (gatherLiveData rt now' k)))"
  by (simp add: message_shape_def live_update_message_def data_keys_def gatherLiveData_keys)

lemma connection_shape: "message_shape (connection_message rt now)"
  by (simp add: message_shape_def connection_message_def)

lemma update_shape: "message_shape (update_message rt now socStatus alertSummary)"
  by (simp add: message_shape_def update_message_def data_keys_def)

lemma stop_fields:
  "outbox (stopRealTimeScanning s) = outbox s \<and> scanCount (stopRealTimeScanning s) = scanCount s
   \<and> dataCache (stopRealTimeScanning s) = dataCache s
   \<and> responses (stopRealTimeScanning s) = responses s"
  by (simp add: stopRealTimeScanning_def clearInterval_def Let_def split: option.split)

lemma ws_connection_fields:
  "outbox (ws_connection rt now s) = outbox s @ [(nextClient s, connection_message rt now)]
   \<and> scanCount (ws_connection rt now s) = scanCount s
   \<and> dataCache (ws_connection rt now s) = dataCache s
   \<and> responses (ws_connection rt now s) = responses s"
  by (simp add: ws_connection_def setInterval_def Let_def)

lemma step_outbox:
  "\<exists>new. outbox (step rt h now ev s) = outbox s @ new \<and> list_all (\<lambda>cm. message_shape (snd cm)) new"
proof (cases ev)
  case StartScanning
  show ?thesis
  proof (cases "isActive s")
    case True
    with StartScanning show ?thesis by (simp add: step_def startRealTimeScanning_def)
  next
    case False
    with StartScanning show ?thesis
      by (simp add: step_def start_inactive performLiveScan_outbox list_all_iff live_update_shape)
  qed
next
  case StopScanning
  then show ?thesis by (simp add: step_def stop_fields)
next
  case (TimerFires tid)
  show ?thesis
  proof (cases "timer_callback tid s")
    case None
    with TimerFires show ?thesis by (simp add: step_def)
  next
    case (Some cb)
    show ?thesis
    proof (cases cb)
      case LiveScan
      with TimerFires Some show ?thesis
        by (simp add: step_def performLiveScan_outbox list_all_iff live_update_shape)
    next
      case (ClientUpdate c)
      from client_update_effect [of rt h now c s] obtain v1 v2 where
        "outbox (client_update rt h now c s) = outbox s
         \<or> outbox (client_update rt h now c s) = outbox s @ [(c, update_message rt now v1 v2)]"
        by blast
      then have "\<exists>new. outbox (client_update rt h now c s) = outbox s @ new
          \<and> list_all (\<lambda>cm. message_shape (snd cm)) new"
      proof
        assume "outbox (client_update rt h now c s) = outbox s"
        then show ?thesis by simp
      next
        assume "outbox (client_update rt h now c s) = outbox s @ [(c, update_message rt now v1 v2)]"
        then show ?thesis by (simp add: update_shape)
      qed
      with TimerFires Some ClientUpdate show ?thesis by (simp add: step_def)
    qed
  qed
next
  case WsConnect
  then show ?thesis by (simp add: step_def ws_connection_fields connection_shape)
next
  case (WsClosing c)
  then show ?thesis by (simp add: step_def ws_closing_def)
next
  case (WsClose c)
  then show ?thesis by (simp add: step_def ws_close_def Let_def clear_client_timer_fields)
next
  case (WsError c)
  then show ?thesis by (simp add: step_def clear_client_timer_fields)
next
  case GetDashboard
  from control_dashboard [of rt h now s]
  have "outbox (snd (dashboard rt h now s)) = outbox s" by (simp add: control_state_def)
  with GetDashboard show ?thesis by (simp add: step_def case_prod_beta)
next
  case RunScan
  from control_runMonitoringScript [of h "''generate_report.sh''" s]
  have "outbox (snd (runMonitoringScript h ''generate_report.sh'' s)) = outbox s"
    by (simp add: control_state_def)
  with RunScan show ?thesis by (simp add: step_def case_prod_beta)
next
  case (FilesChanged fs)
  then show ?thesis by (simp add: step_def)
qed

lemma run_outbox:
  "list_all (\<lambda>cm. message_shape (snd cm)) (outbox s) \<Longrightarrow>
   list_all (\<lambda>cm. message_shape (snd cm)) (outbox (run rt h evs s))"
proof (induction evs arbitrary: s)
  case Nil
  then show ?case by simp
next
  case (Cons e evs)
  obtain now ev where e: "e = (now, ev)" by (cases e)
  from step_outbox [of rt h now ev s] Cons.prems
  have "list_all (\<lambda>cm. message_shape (snd cm)) (outbox (step rt h now ev s))" by auto
  then show ?case unfolding e by (simp add: Cons.IH)
qed

lemma step_scanCount:
  "ev \<noteq> StartScanning \<Longrightarrow> scanCount s \<le> scanCount (step rt h now ev s)"
proof (cases ev)
  case (TimerFires tid)
  have cu: "\<And>c. scanCount (client_update rt h now c s) = scanCount s"
    using client_update_effect [of rt h now _ s] by (auto simp: control_state_def)
  from TimerFires cu show ?thesis
    by (simp add: step_def performLiveScan_scheduler split: option.split callback.split)
next
  case GetDashboard
  from control_dashboard [of rt h now s]
  have "scanCount (snd (dashboard rt h now s)) = scanCount s" by (simp add: control_state_def)
  with GetDashboard show ?thesis by (simp add: step_def case_prod_beta)
next
  case RunScan
  from control_runMonitoringScript [of h "''generate_report.sh''" s]
  have "scanCount (snd (runMonitoringScript h ''generate_report.sh'' s)) = scanCount s"
    by (simp add: control_state_def)
  with RunScan show ?thesis by (simp add: step_def case_prod_beta)
qed (simp_all add: step_def stop_fields ws_connection_fields ws_closing_def ws_close_def
      Let_def clear_client_timer_fields)

section \<open>Messages to WebSocket clients: theorems\<close>

text \<open>
  Claim C8, as amended.  Every message that the server pushes to a WebSocket client, in
  every run from boot, has one of three shapes, told apart by its \<^verbatim>\<open>type\<close>:
  a \<^verbatim>\<open>connection\<close> message has the fields \<^verbatim>\<open>type\<close>, \<^verbatim>\<open>message\<close> and \<^verbatim>\<open>timestamp\<close> and no
  \<^verbatim>\<open>data\<close>; an \<^verbatim>\<open>update\<close> message has the fields \<^verbatim>\<open>type\<close> and \<^verbatim>\<open>data\<close>, with its
  timestamp inside \<^verbatim>\<open>data\<close> and none at top level; a \<^verbatim>\<open>live_update\<close> message has the
  fields \<^verbatim>\<open>type\<close>, \<^verbatim>\<open>data\<close> and \<^verbatim>\<open>timestamp\<close>, its payload being the live snapshot.  So
  the type is always one of the three, and the format of the specification (top-level
  timestamp and payload under \<^verbatim>\<open>data\<close>) is met by the \<^verbatim>\<open>live_update\<close> messages and by
  no others.
\<close>

theorem pushed_messages_shape:
  "list_all (\<lambda>cm. message_shape (snd cm)) (outbox (run rt h evs (boot fs)))
   \<and> (message_shape m \<longrightarrow>
        get_field ''type'' m \<in> {Some (JStr ''connection''), Some (JStr ''update''),
                                  Some (JStr ''live_update'')}
        \<and> (tagged_message m \<longleftrightarrow> get_field ''type'' m = Some (JStr ''live_update'')))"
proof -
  have "list_all (\<lambda>cm. message_shape (snd cm)) (outbox (run rt h evs (boot fs)))"
    by (rule run_outbox) (simp add: boot_def)
  moreover have "message_shape m \<longrightarrow>
        get_field ''type'' m \<in> {Some (JStr ''connection''), Some (JStr ''update''),
                                  Some (JStr ''live_update'')}
        \<and> (tagged_message m \<longleftrightarrow> get_field ''type'' m = Some (JStr ''live_update''))"
    by (cases m) (auto simp: message_shape_def tagged_message_def dest: map_of_SomeD
        simp: image_iff weak_map_of_SomeI)
  ultimately show ?thesis by blast
qed

text \<open>The theorem at work: a client connects, its 30-second timer fires, then scanning
  starts.  The three messages sent have the three types in this order, and only the last
  one has the format of the specification.\<close>

theorem pushed_messages_shape_witness:
  "(let s = run demo_runtime flaky_host
              [(0, WsConnect), (30000, TimerFires 0), (31000, StartScanning)] (boot no_files)
    in list_all (\<lambda>cm. message_shape (snd cm)) (outbox s)
       \<and> map (\<lambda>cm. get_field ''type'' (snd cm)) (outbox s)
           = [Some (JStr ''connection''), Some (JStr ''update''), Some (JStr ''live_update'')]
       \<and> map (\<lambda>cm. tagged_message (snd cm)) (outbox s) = [False, False, True])"
proof -
  define s where "s = run demo_runtime flaky_host
              [(0, WsConnect), (30000, TimerFires 0), (31000, StartScanning)] (boot no_files)"
  have types: "map (\<lambda>cm. get_field ''type'' (snd cm)) (outbox s)
           = [Some (JStr ''connection''), Some (JStr ''update''), Some (JStr ''live_update'')]"
    by (simp add: s_def step_def boot_def ws_connection_def setInterval_def Let_def
        startRealTimeScanning_def performLiveScan_outbox performLiveScan_scheduler
        timer_callback_def client_update_def read_section_def readJSONFile_def
        readJSONFile_try_def cache_get_def no_files_def ws_send_def
        connection_message_def live_update_message_def update_message_def)
  have len: "length (outbox s) = 3"
    using arg_cong [OF types, of length] by simp
  from pushed_messages_shape [of demo_runtime flaky_host
      "[(0, WsConnect), (30000, TimerFires 0), (31000, StartScanning)]" no_files]
  have shapes: "list_all (\<lambda>cm. message_shape (snd cm)) (outbox s)"
    unfolding s_def by blast
  have tagged: "\<And>m. message_shape m \<Longrightarrow>
      tagged_message m = (get_field ''type'' m = Some (JStr ''live_update''))"
    using pushed_messages_shape [of demo_runtime flaky_host "[]" no_files] by blast
  from shapes have "map (\<lambda>cm. tagged_message (snd cm)) (outbox s)
      = map (\<lambda>cm. get_field ''type'' (snd cm) = Some (JStr ''live_update'')) (outbox s)"
    by (simp add: list_all_iff tagged)
  also have "\<dots> = map (\<lambda>t. t = Some (JStr ''live_update'')) (map (\<lambda>cm. get_field ''type'' (snd cm)) (outbox s))"
    by (simp add: comp_def)
  also have "\<dots> = [False, False, True]" unfolding types by simp
  finally have tg: "map (\<lambda>cm. tagged_message (snd cm)) (outbox s) = [False, False, True]" .
  from shapes types tg show ?thesis unfolding Let_def s_def [symmetric] by simp
qed

text \<open>
  Claim C8 as stated fails for two of the three message types.  A client connects and
  its timer fires once, with no files around: the greeting has no \<^verbatim>\<open>data\<close> field, and
  the update has no top-level \<^verbatim>\<open>timestamp\<close>.
\<close>

theorem connection_and_update_not_tagged:
  "(let s = run demo_runtime flaky_host [(0, WsConnect), (30000, TimerFires 0)] (boot no_files)
    in outbox s =
         [(0, JObj [(''type'', JStr ''connection''),
                    (''message'', JStr ''Connected to SOC Dashboard''),
                    (''timestamp'', JStr (toISOString demo_runtime 0))]),
          (0, JObj [(''type'', JStr ''update''),
                    (''data'', JObj [(''soc_status'', JObj [(''status'', JStr ''operational'')]),
                                     (''alert_summary'', JObj []),
                                     (''timestamp'', JStr (toISOString demo_runtime 30000))])])]
       \<and> \<not> tagged_message (snd (outbox s ! 0))
       \<and> get_field ''data'' (snd (outbox s ! 0)) = None
       \<and> \<not> tagged_message (snd (outbox s ! 1))
       \<and> get_field ''timestamp'' (snd (outbox s ! 1)) = None)"
  by (simp add: step_def boot_def ws_connection_def setInterval_def Let_def
        timer_callback_def client_update_def read_section_def readJSONFile_def
        readJSONFile_try_def cache_get_def no_files_def ws_send_def
        connection_message_def update_message_def tagged_message_def)

section \<open>The scan counter: theorems\<close>

text \<open>Which events publish a snapshot, and what each event does to the counter.\<close>

lemma step_published:
  "published rt h now ev s =
     (if (ev = StartScanning \<and> \<not> isActive s)
         \<or> (\<exists>tid. ev = TimerFires tid \<and> timer_callback tid s = Some LiveScan)
      then map (\<lambda>client. (client_id client,
                  live_update_message rt now (fst (gatherLiveData rt now (draws s)))))
             (filter readyOpen (clients s))
      else [])"
proof (cases ev)
  case StartScanning
  show ?thesis
  proof (cases "isActive s")
    case True
    with StartScanning show ?thesis
      by (simp add: published_def step_def startRealTimeScanning_def)
  next
    case False
    with StartScanning show ?thesis
      by (simp add: published_def step_def start_inactive performLiveScan_outbox
          live_update_message_def)
  qed
next
  case StopScanning
  then show ?thesis by (simp add: published_def step_def stop_fields)
next
  case (TimerFires tid)
  show ?thesis
  proof (cases "timer_callback tid s")
    case None
    with TimerFires show ?thesis by (simp add: published_def step_def)
  next
    case (Some cb)
    show ?thesis
    proof (cases cb)
      case LiveScan
      with TimerFires Some show ?thesis
        by (simp add: published_def step_def performLiveScan_outbox live_update_message_def)
    next
      case (ClientUpdate c)
      from client_update_effect [of rt h now c s] obtain v1 v2 where
        "outbox (client_update rt h now c s) = outbox s
         \<or> outbox (client_update rt h now c s) = outbox s @ [(c, update_message rt now v1 v2)]"
        by blast
      then have "filter (\<lambda>cm. get_field ''type'' (snd cm) = Some (JStr ''live_update''))
         (drop (length (outbox s)) (outbox (client_update rt h now c s))) = []"
        by (auto simp: update_message_def)
      with TimerFires Some ClientUpdate show ?thesis by (simp add: published_def step_def)
    qed
  qed
next
  case WsConnect
  then show ?thesis
    by (simp add: published_def step_def ws_connection_fields connection_message_def)
next
  case (WsClosing c)
  then show ?thesis by (simp add: published_def step_def ws_closing_def)
next
  case (WsClose c)
  then show ?thesis
    by (simp add: published_def step_def ws_close_def Let_def clear_client_timer_fields)
next
  case (WsError c)
  then show ?thesis by (simp add: published_def step_def clear_client_timer_fields)
next
  case GetDashboard
  from control_dashboard [of rt h now s]
  have "outbox (snd (dashboard rt h now s)) = outbox s" by (simp add: control_state_def)
  with GetDashboard show ?thesis by (simp add: published_def step_def case_prod_beta)
next
  case RunScan
  from control_runMonitoringScript [of h "''generate_report.sh''" s]
  have "outbox (snd (runMonitoringScript h ''generate_report.sh'' s)) = outbox s"
    by (simp add: control_state_def)
  with RunScan show ?thesis by (simp add: published_def step_def case_prod_beta)
next
  case (FilesChanged fs)
  then show ?thesis by (simp add: published_def step_def)
qed

lemma step_scanCount_exact:
  "scanCount (step rt h now ev s) =
     (if ev = StartScanning \<and> \<not> isActive s then 1
      else if \<exists>tid. ev = TimerFires tid \<and> timer_callback tid s = Some LiveScan
      then scanCount s + 1
      else scanCount s)"
proof (cases ev)
  case StartScanning
  then show ?thesis
    by (simp add: step_def startRealTimeScanning_def setInterval_def Let_def
        performLiveScan_scheduler)
next
  case (TimerFires tid)
  have cu: "\<And>c. scanCount (client_update rt h now c s) = scanCount s"
    using client_update_effect [of rt h now _ s] by (auto simp: control_state_def)
  from TimerFires cu show ?thesis
    by (simp add: step_def performLiveScan_scheduler split: option.split callback.split)
next
  case GetDashboard
  from control_dashboard [of rt h now s]
  have "scanCount (snd (dashboard rt h now s)) = scanCount s" by (simp add: control_state_def)
  with GetDashboard show ?thesis by (simp add: step_def case_prod_beta)
next
  case RunScan
  from control_runMonitoringScript [of h "''generate_report.sh''" s]
  have "scanCount (snd (runMonitoringScript h ''generate_report.sh'' s)) = scanCount s"
    by (simp add: control_state_def)
  with RunScan show ?thesis by (simp add: step_def case_prod_beta)
qed (simp_all add: step_def stop_fields ws_connection_fields ws_closing_def ws_close_def
      Let_def clear_client_timer_fields)

lemma run_scanCount:
  "list_all (\<lambda>e. snd e \<noteq> StartScanning) evs \<Longrightarrow> scanCount s \<le> scanCount (run rt h evs s)"
proof (induction evs arbitrary: s)
  case Nil
  then show ?case by simp
next
  case (Cons e evs)
  obtain now ev where e: "e = (now, ev)" by (cases e)
  from Cons.prems have "ev \<noteq> StartScanning" and rest: "list_all (\<lambda>e. snd e \<noteq> StartScanning) evs"
    by (simp_all add: e)
  then have "scanCount s \<le> scanCount (step rt h now ev s)" by (simp add: step_scanCount_exact)
  also have "\<dots> \<le> scanCount (run rt h evs (step rt h now ev s))" using rest by (rule Cons.IH)
  finally show ?case by (simp add: e)
qed

lemma next_publication:
  assumes quiet: "list_all (\<lambda>e. snd e \<noteq> StartScanning) mid" and ev: "ev \<noteq> StartScanning"
    and pub: "published rt h now ev (run rt h mid s) \<noteq> []"
  shows "scanCount s < scanCount (step rt h now ev (run rt h mid s))"
proof -
  from pub ev have "\<exists>tid. ev = TimerFires tid \<and> timer_callback tid (run rt h mid s) = Some LiveScan"
    by (simp add: step_published split: if_splits)
  with ev have "scanCount (step rt h now ev (run rt h mid s)) = scanCount (run rt h mid s) + 1"
    by (simp add: step_scanCount_exact)
  with run_scanCount [OF quiet, of s rt h] show ?thesis by simp
qed

text \<open>
  Claim C3, as amended.  The scanner keeps a counter, \<^verbatim>\<open>scanCount\<close>.  Every live scan
  adds exactly one to it and publishes one snapshot, in a \<^verbatim>\<open>live_update\<close> message to
  every open client.  Nothing else publishes a snapshot: an event publishes
  \<^verbatim>\<open>live_update\<close> messages exactly when it is Start from the stopped state or the firing
  of a live-scan timer, and these are the events that change the counter, the first
  setting it to 1 and the second adding 1.  So no event other than Start ever lowers the
  counter, and from any state, after any events without a Start, an event other than
  Start that publishes a snapshot leaves the counter strictly greater than it was:
  across consecutive published snapshots the counter strictly increases as long as
  scanning is not restarted.  The counter is not part of what is published: the message
  has the fields \<^verbatim>\<open>type\<close>, \<^verbatim>\<open>data\<close> and \<^verbatim>\<open>timestamp\<close>, the snapshot has a timestamp and
  ten sections, and neither carries a sequence number.
\<close>

theorem scan_counter_increments:
  "scanCount (performLiveScan rt h now s) = scanCount s + 1
   \<and> (ev \<noteq> StartScanning \<longrightarrow> scanCount s \<le> scanCount (step rt h now ev s))
   \<and> scanCount (step rt h now StartScanning s) = (if isActive s then scanCount s else 1)
   \<and> outbox (performLiveScan rt h now s) =
        outbox s
          @ map (\<lambda>client. (client_id client,
                   live_update_message rt now (fst (gatherLiveData rt now (draws s)))))
              (filter readyOpen (clients s))
   \<and> keys (live_update_message rt now (fst (gatherLiveData rt now k)))
        = [''type'', ''data'', ''timestamp'']
   \<and> keys (fst (gatherLiveData rt now k)) = live_keys
   \<and> \<not> carries_sequence (live_update_message rt now (fst (gatherLiveData rt now k)))
   \<and> published rt h now ev s =
       (if (ev = StartScanning \<and> \<not> isActive s)
           \<or> (\<exists>tid. ev = TimerFires tid \<and> timer_callback tid s = Some LiveScan)
        then map (\<lambda>client. (client_id client,
                    live_update_message rt now (fst (gatherLiveData rt now (draws s)))))
               (filter readyOpen (clients s))
        else [])
   \<and> scanCount (step rt h now ev s) =
       (if ev = StartScanning \<and> \<not> isActive s then 1
        else if \<exists>tid. ev = TimerFires tid \<and> timer_callback tid s = Some LiveScan
        then scanCount s + 1
        else scanCount s)
   \<and> (list_all (\<lambda>e. snd e \<noteq> StartScanning) mid \<and> ev \<noteq> StartScanning
        \<and> published rt h now ev (run rt h mid s) \<noteq> [] \<longrightarrow>
        scanCount s < scanCount (step rt h now ev (run rt h mid s)))"
proof -
  have "scanCount (step rt h now StartScanning s) = (if isActive s then scanCount s else 1)"
    by (simp add: step_def startRealTimeScanning_def setInterval_def Let_def
        performLiveScan_scheduler)
  moreover have "\<not> carries_sequence (live_update_message rt now (fst (gatherLiveData rt now k)))"
    by (simp add: carries_sequence_def live_update_message_def gatherLiveData_def Let_def
        case_prod_beta)
  moreover have "keys (live_update_message rt now (fst (gatherLiveData rt now k)))
        = [''type'', ''data'', ''timestamp'']"
    by (simp add: live_update_message_def)
  moreover have "scanCount (performLiveScan rt h now s) = scanCount s + 1"
    by (simp add: performLiveScan_scheduler)
  moreover have "ev \<noteq> StartScanning \<longrightarrow> scanCount s \<le> scanCount (step rt h now ev s)"
    by (simp add: step_scanCount)
  moreover note performLiveScan_outbox [of rt h now s] gatherLiveData_keys [of rt now k]
    step_published [of rt h now ev s] step_scanCount_exact [of rt h now ev s]
  moreover have "list_all (\<lambda>e. snd e \<noteq> StartScanning) mid \<and> ev \<noteq> StartScanning
        \<and> published rt h now ev (run rt h mid s) \<noteq> [] \<longrightarrow>
        scanCount s < scanCount (step rt h now ev (run rt h mid s))"
    using next_publication by blast
  ultimately show ?thesis by blast
qed


text \<open>The theorem at work: Start and two firings of the scan timer bring the counter to
  1, 2 and 3; the firing of a timer that does not exist is an event other than Start, and
  does not lower it.  With a client connected, the firing of the scan timer publishes one
  snapshot, to that client, and the counter is greater than after the snapshot before;
  once the scanner is stopped the same firing publishes nothing.\<close>

theorem scan_counter_increments_witness:
  "(let s1 = run demo_runtime flaky_host [(0, StartScanning)] (boot no_files);
        s2 = step demo_runtime flaky_host 10000 (TimerFires 0) s1;
        s3 = step demo_runtime flaky_host 20000 (TimerFires 0) s2
    in TimerFires 0 \<noteq> StartScanning
       \<and> scanCount s1 = 1 \<and> scanCount s2 = 2 \<and> scanCount s3 = 3
       \<and> scanCount s1 \<le> scanCount (step demo_runtime flaky_host 5000 (TimerFires 7) s1))
   \<and> (let s = run demo_runtime flaky_host [(0, WsConnect), (1, StartScanning)] (boot no_files);
           mid = [(5000, TimerFires 7), (6000, StopScanning)];
           mid' = [(5000, TimerFires 7)]
       in published demo_runtime flaky_host 10001 (TimerFires 1) (run demo_runtime flaky_host mid s)
            = []
          \<and> map fst (published demo_runtime flaky_host 10001 (TimerFires 1)
                       (run demo_runtime flaky_host mid' s)) = [0]
          \<and> scanCount s
              < scanCount (step demo_runtime flaky_host 10001 (TimerFires 1)
                             (run demo_runtime flaky_host mid' s)))"
proof -
  define s1 where "s1 = run demo_runtime flaky_host [(0, StartScanning)] (boot no_files)"
  have a: "scanCount s1 = 1" and t1: "timer_callback 0 s1 = Some LiveScan"
    by (simp_all add: s1_def step_def startRealTimeScanning_def setInterval_def Let_def
        performLiveScan_scheduler boot_def timer_callback_def)
  define s2 where "s2 = step demo_runtime flaky_host 10000 (TimerFires 0) s1"
  have s2: "s2 = performLiveScan demo_runtime flaky_host 10000 s1"
    using t1 by (simp add: s2_def step_def)
  have t2: "timer_callback 0 s2 = Some LiveScan"
    using t1 by (simp add: s2 timer_callback_def performLiveScan_scheduler)
  have b: "scanCount s2 = 2"
    using scan_counter_increments [of demo_runtime flaky_host 10000 s1] a by (simp add: s2)
  have c: "scanCount (step demo_runtime flaky_host 20000 (TimerFires 0) s2) = 3"
    using scan_counter_increments [of demo_runtime flaky_host 20000 s2] b t2
    by (simp add: step_def)
  have d: "scanCount s1 \<le> scanCount (step demo_runtime flaky_host 5000 (TimerFires 7) s1)"
    using scan_counter_increments [of demo_runtime flaky_host 5000 s1 "TimerFires 7"] by simp
  define s where "s = run demo_runtime flaky_host [(0, WsConnect), (1, StartScanning)] (boot no_files)"
  have fields: "timers s = [(0, ClientUpdate 0, 30000), (1, LiveScan, 10000)]"
    "clients s = [\<lparr>client_id = 0, readyOpen = True, updateInterval = 0\<rparr>]"
    "isActive s" "scanInterval s = Some 1"
    by (simp_all add: s_def step_def startRealTimeScanning_def setInterval_def Let_def
        performLiveScan_scheduler boot_def ws_connection_def)
  have idle: "run demo_runtime flaky_host [(5000, TimerFires 7)] s = s"
    by (simp add: step_def timer_callback_def fields)
  have stopped: "timer_callback 1 (run demo_runtime flaky_host
        [(5000, TimerFires 7), (6000, StopScanning)] s) = None"
    by (simp add: step_def timer_callback_def fields stopRealTimeScanning_def clearInterval_def
        Let_def)
  have e: "published demo_runtime flaky_host 10001 (TimerFires 1)
      (run demo_runtime flaky_host [(5000, TimerFires 7), (6000, StopScanning)] s) = []"
    using scan_counter_increments [of demo_runtime flaky_host 10001
        "run demo_runtime flaky_host [(5000, TimerFires 7), (6000, StopScanning)] s" "TimerFires 1"]
      stopped
    by (simp del: run.simps)
  have f: "map fst (published demo_runtime flaky_host 10001 (TimerFires 1)
                       (run demo_runtime flaky_host [(5000, TimerFires 7)] s)) = [0]"
    unfolding idle
    using scan_counter_increments [of demo_runtime flaky_host 10001 s "TimerFires 1"]
    by (simp add: timer_callback_def fields comp_def)
  then have "published demo_runtime flaky_host 10001 (TimerFires 1)
                       (run demo_runtime flaky_host [(5000, TimerFires 7)] s) \<noteq> []"
    by auto
  with scan_counter_increments [of demo_runtime flaky_host 10001 s "TimerFires 1" _
      "[(5000, TimerFires 7)]"]
  have g: "scanCount s < scanCount (step demo_runtime flaky_host 10001 (TimerFires 1)
                             (run demo_runtime flaky_host [(5000, TimerFires 7)] s))"
    by (simp del: run.simps)
  from a b c d e f g show ?thesis
    unfolding Let_def s1_def [symmetric] s2_def [symmetric] s_def [symmetric] by simp
qed

text \<open>
  Claim C3 as stated fails.  The snapshot pushed to a connected client after Start has no
  sequence number, in the message or in its payload: its fields are listed here.  And
  the counter that the scanner does keep is 1 and 2 for the first two snapshots of a run
  and 1 again for the snapshot published after Stop and Start.
\<close>

theorem published_snapshot_has_no_sequence:
  "(let s = run demo_runtime flaky_host [(0, WsConnect), (1000, StartScanning)] (boot no_files);
        m = snd (last (outbox s))
    in get_field ''type'' m = Some (JStr ''live_update'')
       \<and> keys m = [''type'', ''data'', ''timestamp'']
       \<and> data_keys m =
           [''timestamp'', ''login_summary'', ''failed_logins'', ''top_attackers'', ''portscans'',
            ''suspicious_processes'', ''open_ports'', ''connection_stats'', ''security_metrics'',
            ''alert_summary'', ''executive_summary'']
       \<and> \<not> carries_sequence m)
   \<and> map (\<lambda>evs. scanCount (run demo_runtime flaky_host evs (boot no_files)))
        [[(0, StartScanning)],
         [(0, StartScanning), (10000, TimerFires 0)],
         [(0, StartScanning), (10000, TimerFires 0), (15000, StopScanning),
          (16000, StartScanning)]]
      = [1, 2, 1]"
  by (simp add: step_def boot_def ws_connection_def setInterval_def clearInterval_def Let_def
      startRealTimeScanning_def stopRealTimeScanning_def performLiveScan_outbox
      performLiveScan_scheduler timer_callback_def live_update_message_def data_keys_def
      gatherLiveData_keys live_keys_def carries_sequence_def gatherLiveData_def case_prod_beta)

section \<open>The dashboard invariant along a run\<close>

lemma get_field_keys: "get_field key v \<noteq> None \<longleftrightarrow> key \<in> set (keys v)"
  by (cases v) (simp_all add: map_of_eq_None_iff)

lemma dashboard_keys_all_sections:
  assumes "keys v = dashboard_keys"
  shows "has_all_sections v"
proof -
  have "\<forall>key \<in> set registered_sections. key \<in> set (keys v)"
    unfolding assms
    by (simp add: registered_sections_def dashboard_keys_def dashboard_sections_def)
  then show ?thesis
    unfolding has_all_sections_def list_all_iff get_field_keys .
qed

lemma dashboard_inv_cache_responses:
  "dataCache s' ''dashboard_data'' = dataCache s ''dashboard_data'' \<Longrightarrow>
   responses s' = responses s \<Longrightarrow> dashboard_inv s' = dashboard_inv s"
  by (simp add: dashboard_inv_def)

lemma dashboard_inv_step:
  assumes "dashboard_inv s"
  shows "dashboard_inv (step rt h now ev s)"
proof (cases ev)
  case StartScanning
  have "dashboard_inv (startRealTimeScanning rt h now s) = dashboard_inv s"
    by (rule dashboard_inv_cache_responses)
      (simp_all add: startRealTimeScanning_def setInterval_def Let_def performLiveScan_scheduler)
  with assms StartScanning show ?thesis by (simp add: step_def)
next
  case StopScanning
  have "dashboard_inv (stopRealTimeScanning s) = dashboard_inv s"
    by (rule dashboard_inv_cache_responses) (simp_all add: stop_fields)
  with assms StopScanning show ?thesis by (simp add: step_def)
next
  case (TimerFires tid)
  have scan: "dashboard_inv (performLiveScan rt h now s) = dashboard_inv s"
    by (rule dashboard_inv_cache_responses) (simp_all add: performLiveScan_scheduler)
  have upd: "dashboard_inv (client_update rt h now c s) = dashboard_inv s" for c
    using client_update_effect [of rt h now c s]
    by (intro dashboard_inv_cache_responses) (auto simp: control_state_def)
  from assms TimerFires scan upd show ?thesis
    by (simp add: step_def split: option.split callback.split)
next
  case WsConnect
  have "dashboard_inv (ws_connection rt now s) = dashboard_inv s"
    by (rule dashboard_inv_cache_responses) (simp_all add: ws_connection_fields)
  with assms WsConnect show ?thesis by (simp add: step_def)
next
  case (WsClosing c)
  with assms show ?thesis by (simp add: step_def ws_closing_def dashboard_inv_def)
next
  case (WsClose c)
  with assms show ?thesis
    by (simp add: step_def ws_close_def Let_def dashboard_inv_def clear_client_timer_fields)
next
  case (WsError c)
  with assms show ?thesis by (simp add: step_def dashboard_inv_def clear_client_timer_fields)
next
  case GetDashboard
  from assms have c: "case dataCache s ''dashboard_data'' of None \<Rightarrow> True
      | Some (d, t) \<Rightarrow> keys d = dashboard_keys"
    by (simp add: dashboard_inv_def)
  from control_dashboard [of rt h now s]
  have r: "responses (snd (dashboard rt h now s)) = responses s" by (simp add: control_state_def)
  from GetDashboard assms r dashboard_keeps_keys [OF c, of rt h now] dashboard_status [of rt h now s]
  show ?thesis by (simp add: step_def case_prod_beta dashboard_inv_def)
next
  case RunScan
  from control_runMonitoringScript [of h "''generate_report.sh''" s]
  have "responses (snd (runMonitoringScript h ''generate_report.sh'' s)) = responses s"
    by (simp add: control_state_def)
  with assms RunScan show ?thesis by (simp add: step_def case_prod_beta dashboard_inv_def)
next
  case (FilesChanged fs)
  with assms show ?thesis by (simp add: step_def dashboard_inv_def)
qed

lemma dashboard_inv_run: "dashboard_inv s \<Longrightarrow> dashboard_inv (run rt h evs s)"
proof (induction evs arbitrary: s)
  case Nil
  then show ?case by simp
next
  case (Cons e evs)
  obtain now ev where e: "e = (now, ev)" by (cases e)
  from Cons.prems have "dashboard_inv (step rt h now ev s)" by (rule dashboard_inv_step)
  then show ?case unfolding e by (simp add: Cons.IH)
qed

section \<open>Section keys of the snapshots: theorems\<close>

text \<open>
  Claim C2, as amended.  There are two snapshot objects.  The one that the dashboard
  endpoint answers with has status 200 and every one of the seventeen registered section
  keys, in every response of every run from boot, also when the script and every input
  file are missing or unreadable.  The one that a live scan gathers and broadcasts has a
  timestamp and ten sections; of the registered keys it lacks \<^verbatim>\<open>top_processes\<close>,
  \<^verbatim>\<open>process_summary\<close>, \<^verbatim>\<open>file_integrity\<close>, \<^verbatim>\<open>recent_changes\<close>, \<^verbatim>\<open>ip_geolocation\<close>,
  \<^verbatim>\<open>attack_by_country\<close> and \<^verbatim>\<open>threat_map\<close>.
\<close>

theorem dashboard_has_all_sections:
  "list_all (\<lambda>r. statusCode r = 200 \<and> has_all_sections (body r))
     (responses (run rt h evs (boot fs)))
   \<and> keys (fst (gatherLiveData rt now k)) = live_keys
   \<and> filter (\<lambda>key. get_field key (fst (gatherLiveData rt now k)) = None) registered_sections
       = [''top_processes'', ''process_summary'', ''file_integrity'', ''recent_changes'',
          ''ip_geolocation'', ''attack_by_country'', ''threat_map'']"
proof -
  have "dashboard_inv (run rt h evs (boot fs))"
    by (rule dashboard_inv_run) (simp add: dashboard_inv_def boot_def)
  then have "list_all (\<lambda>r. statusCode r = 200 \<and> has_all_sections (body r))
     (responses (run rt h evs (boot fs)))"
    by (auto simp: dashboard_inv_def list_all_iff dashboard_keys_all_sections)
  moreover have "filter (\<lambda>key. get_field key (fst (gatherLiveData rt now k)) = None) registered_sections
       = [''top_processes'', ''process_summary'', ''file_integrity'', ''recent_changes'',
          ''ip_geolocation'', ''attack_by_country'', ''threat_map'']"
    by (simp add: gatherLiveData_def Let_def case_prod_beta registered_sections_def)
  ultimately show ?thesis by (simp add: gatherLiveData_keys)
qed

text \<open>The theorem at work: a dashboard request right after boot on a host with no
  script and no files.  Every probe fails, and the one response has all the keys.\<close>

theorem dashboard_has_all_sections_witness:
  "(let s = run demo_runtime flaky_host [(0, GetDashboard)] (boot no_files)
    in length (responses s) = 1
       \<and> statusCode (hd (responses s)) = 200
       \<and> has_all_sections (body (hd (responses s))))"
proof -
  define s where "s = run demo_runtime flaky_host [(0, GetDashboard)] (boot no_files)"
  have one: "responses s = [fst (dashboard demo_runtime flaky_host 0 (boot no_files))]"
    using control_dashboard [of demo_runtime flaky_host 0 "boot no_files"]
    by (simp add: s_def step_def case_prod_beta control_state_def boot_def)
  from dashboard_has_all_sections [of demo_runtime flaky_host "[(0, GetDashboard)]" no_files]
  have "list_all (\<lambda>r. statusCode r = 200 \<and> has_all_sections (body r)) (responses s)"
    unfolding s_def by blast
  with one show ?thesis unfolding Let_def s_def [symmetric] by simp
qed

text \<open>
  Claim C2 as stated fails for the cycle of the real-time scanner.  The snapshot pushed
  to a connected client after Start has the eleven keys listed here; \<^verbatim>\<open>top_processes\<close>
  and \<^verbatim>\<open>threat_map\<close>, for two, are absent.
\<close>

theorem live_snapshot_lacks_sections:
  "(let s = run demo_runtime flaky_host [(0, WsConnect), (1000, StartScanning)] (boot no_files);
        m = snd (last (outbox s))
    in get_field ''type'' m = Some (JStr ''live_update'')
       \<and> (case get_field ''data'' m of
             None \<Rightarrow> False
           | Some snapshot \<Rightarrow>
               keys snapshot =
                 [''timestamp'', ''login_summary'', ''failed_logins'', ''top_attackers'',
                  ''portscans'', ''suspicious_processes'', ''open_ports'', ''connection_stats'',
                  ''security_metrics'', ''alert_summary'', ''executive_summary'']
               \<and> get_field ''top_processes'' snapshot = None
               \<and> get_field ''threat_map'' snapshot = None
               \<and> \<not> has_all_sections snapshot))"
  by (simp add: step_def boot_def ws_connection_def setInterval_def Let_def
      startRealTimeScanning_def performLiveScan_outbox performLiveScan_scheduler
      live_update_message_def gatherLiveData_def case_prod_beta has_all_sections_def
      registered_sections_def)

section \<open>Values of the dashboard sections: lemmas\<close>

lemma eval_fallback_value:
  "fst (eval_fallback rt now fb s) = fallback_value rt now fb (draws s)"
  by (cases fb) (simp_all add: case_prod_beta)

lemma readJSONFile_draws: "draws (snd (readJSONFile rt now p s)) = draws s"
  by (simp add: readJSONFile_def readJSONFile_try_def Let_def
      split: file_state.split option.split)

lemma read_section_value:
  "fst (read_section rt h now f fb s) =
     Inr (if read_fails rt now (path_join (OUTPUT_DIR h) f) s
          then fallback_value rt now fb (draws s)
          else projr (fst (readJSONFile rt now (path_join (OUTPUT_DIR h) f) s)))"
proof -
  obtain v where v: "fst (readJSONFile rt now (path_join (OUTPUT_DIR h) f) s) = Inr v"
    using readJSONFile_Inr by blast
  then show ?thesis
    using readJSONFile_draws [of rt now "path_join (OUTPUT_DIR h) f" s]
    by (simp add: read_section_def read_fails_def case_prod_beta eval_fallback_value)
qed

lemma readJSONFile_depends:
  assumes "dataCache s' p = dataCache s p" and "files s' p = files s p"
  shows "fst (readJSONFile rt now p s') = fst (readJSONFile rt now p s)"
    and "read_fails rt now p s' = read_fails rt now p s"
proof -
  from assms have "cache_get (dataCache s') now p = cache_get (dataCache s) now p"
    by (simp add: cache_get_def)
  with assms show "fst (readJSONFile rt now p s') = fst (readJSONFile rt now p s)"
    by (simp add: readJSONFile_result)
  then show "read_fails rt now p s' = read_fails rt now p s"
    by (simp add: read_fails_def)
qed

lemma read_sections_lookup:
  assumes "distinct (map (\<lambda>row. fst (snd row)) rows)" and "distinct (map fst rows)"
    and "(key, f, fb) \<in> set rows"
  shows "\<exists>props k. fst (read_sections rt h now rows s) = Inr props
     \<and> map_of props key =
         Some (if read_fails rt now (path_join (OUTPUT_DIR h) f) s
               then fallback_value rt now fb k
               else projr (fst (readJSONFile rt now (path_join (OUTPUT_DIR h) f) s)))"
  using assms
proof (induction rows arbitrary: s)
  case Nil
  then show ?case by simp
next
  case (Cons row rows)
  obtain key0 f0 fb0 where row: "row = (key0, f0, fb0)" by (cases row)
  let ?r = "read_section rt h now f0 fb0 s"
  let ?s1 = "snd ?r"
  obtain v0 where v0: "fst ?r = Inr v0" using read_section_Inr by blast
  obtain props' where props': "fst (read_sections rt h now rows ?s1) = Inr props'"
    using read_sections_Inr by blast
  have whole: "fst (read_sections rt h now (row # rows) s) = Inr ((key0, v0) # props')"
    using row v0 props' by (simp add: case_prod_beta split: sum.split prod.split)
  show ?case
  proof (cases "(key, f, fb) = row")
    case True
    with row have eq: "key = key0" "f = f0" "fb = fb0" by simp_all
    from v0 read_section_value [of rt h now f0 fb0 s]
    have "v0 = (if read_fails rt now (path_join (OUTPUT_DIR h) f0) s
               then fallback_value rt now fb0 (draws s)
               else projr (fst (readJSONFile rt now (path_join (OUTPUT_DIR h) f0) s)))"
      by simp
    with whole eq show ?thesis by auto
  next
    case False
    with Cons.prems have mem: "(key, f, fb) \<in> set rows" by simp
    from Cons.prems row mem have kneq: "key \<noteq> key0" and fneq: "f \<noteq> f0"
      by (auto simp: image_iff)
    from Cons.prems have d: "distinct (map (\<lambda>row. fst (snd row)) rows)" "distinct (map fst rows)"
      by simp_all
    from Cons.IH [OF d mem, of ?s1] props' obtain k where
      k: "map_of props' key =
         Some (if read_fails rt now (path_join (OUTPUT_DIR h) f) ?s1
               then fallback_value rt now fb k
               else projr (fst (readJSONFile rt now (path_join (OUTPUT_DIR h) f) ?s1)))"
      by auto
    have pneq: "path_join (OUTPUT_DIR h) f \<noteq> path_join (OUTPUT_DIR h) f0"
      using fneq by (simp add: path_join_def)
    have same: "dataCache ?s1 (path_join (OUTPUT_DIR h) f) = dataCache s (path_join (OUTPUT_DIR h) f)"
      "files ?s1 (path_join (OUTPUT_DIR h) f) = files s (path_join (OUTPUT_DIR h) f)"
      using pneq by (simp_all add: read_section_cache_other read_section_files)
    from k readJSONFile_depends [OF same, of rt now] whole kneq show ?thesis by auto
  qed
qed

lemma read_sections_all:
  "\<exists>props. fst (read_sections rt h now rows s) = Inr props
     \<and> list_all2 (\<lambda>row prop. fst prop = fst row
          \<and> (truthy (snd prop) \<or> (\<exists>k. snd prop = fallback_value rt now (snd (snd row)) k)))
        rows props"
proof (induction rows arbitrary: s)
  case Nil
  show ?case by simp
next
  case (Cons row rows)
  obtain key0 f0 fb0 where row: "row = (key0, f0, fb0)" by (cases row)
  let ?r = "read_section rt h now f0 fb0 s"
  obtain v0 where v0: "fst ?r = Inr v0" using read_section_Inr by blast
  from Cons.IH [of "snd ?r"] obtain props' where
    props': "fst (read_sections rt h now rows (snd ?r)) = Inr props'"
    "list_all2 (\<lambda>row prop. fst prop = fst row
          \<and> (truthy (snd prop) \<or> (\<exists>k. snd prop = fallback_value rt now (snd (snd row)) k)))
        rows props'"
    by blast
  have whole: "fst (read_sections rt h now (row # rows) s) = Inr ((key0, v0) # props')"
    using row v0 props' by (simp add: case_prod_beta split: sum.split prod.split)
  from v0 read_section_value [of rt h now f0 fb0 s]
  have "truthy v0 \<or> (\<exists>k. v0 = fallback_value rt now fb0 k)"
    using readJSONFile_Inr [of rt now "path_join (OUTPUT_DIR h) f0" s]
    by (auto simp: read_fails_def split: if_splits)
  with whole props' row show ?case by simp
qed

lemma dashboard_sections_distinct:
  "distinct (map (\<lambda>row. fst (snd row)) dashboard_sections)"
  "distinct (map fst dashboard_sections)"
  "(key, f, fb) \<in> set dashboard_sections \<Longrightarrow> key \<noteq> ''timestamp''"
  "(key, f, fb) \<in> set dashboard_sections \<Longrightarrow>
     (\<exists>dataType. fb = Sample dataType)
       = (key \<in> {''login_summary'', ''failed_logins'', ''security_metrics''})"
  by (auto simp: dashboard_sections_def)

lemma dashboard_section_lookup:
  assumes "(key, fileName, fb) \<in> set dashboard_sections"
    and "\<not> truthy (cache_get (dataCache s) now ''dashboard_data'')"
  shows "\<exists>k. get_field key (body (fst (dashboard rt h now s))) =
           Some (if read_fails rt now (path_join (OUTPUT_DIR h) fileName)
                      (snd (runMonitoringScript h ''generate_report.sh'' s))
                 then fallback_value rt now fb k
                 else projr (fst (readJSONFile rt now (path_join (OUTPUT_DIR h) fileName)
                        (snd (runMonitoringScript h ''generate_report.sh'' s)))))"
proof -
  let ?s1 = "snd (runMonitoringScript h ''generate_report.sh'' s)"
  let ?p = "path_join (OUTPUT_DIR h) fileName"
  from dashboard_fresh [OF assms(2), of rt h] obtain props where
    props: "fst (read_sections rt h now dashboard_sections ?s1) = Inr props"
    and body: "body (fst (dashboard rt h now s))
                 = JObj ((''timestamp'', JStr (toISOString rt now)) # props)"
    by auto
  from read_sections_lookup [OF dashboard_sections_distinct(1,2) assms(1), of rt h now ?s1] props
  obtain k where k: "map_of props key =
         Some (if read_fails rt now ?p ?s1 then fallback_value rt now fb k
               else projr (fst (readJSONFile rt now ?p ?s1)))"
    by auto
  have "get_field key (body (fst (dashboard rt h now s))) = map_of props key"
    using dashboard_sections_distinct(3) [OF assms(1)] by (simp add: body)
  with k show ?thesis by auto
qed

lemma readJSONFile_cache_time:
  "dataCache (snd (readJSONFile rt now p s)) key = Some (d, t) \<Longrightarrow>
   dataCache s key = Some (d, t) \<or> t = now"
  by (auto simp: readJSONFile_def readJSONFile_try_def Let_def cache_set_def
      split: file_state.splits option.splits if_splits)

lemma read_section_cache_time:
  assumes "dataCache (snd (read_section rt h now f fb s)) key = Some (d, t)"
  shows "dataCache s key = Some (d, t) \<or> t = now"
proof -
  let ?r = "readJSONFile rt now (path_join (OUTPUT_DIR h) f) s"
  obtain v where v: "fst ?r = Inr v" using readJSONFile_Inr by blast
  have "dataCache (snd (read_section rt h now f fb s)) = dataCache (snd ?r)"
    using v by (simp add: read_section_def case_prod_beta eval_fallback_cache_files)
  with assms readJSONFile_cache_time [of rt now _ s key d t] show ?thesis by simp
qed

lemma read_sections_cache_time:
  "dataCache (snd (read_sections rt h now rows s)) key = Some (d, t) \<Longrightarrow>
   dataCache s key = Some (d, t) \<or> t = now"
proof (induction rows arbitrary: s)
  case Nil
  then show ?case by simp
next
  case (Cons row rows)
  obtain key0 f0 fb0 where row: "row = (key0, f0, fb0)" by (cases row)
  let ?r = "read_section rt h now f0 fb0 s"
  obtain v0 where v0: "fst ?r = Inr v0" using read_section_Inr by blast
  obtain props' where props': "fst (read_sections rt h now rows (snd ?r)) = Inr props'"
    using read_sections_Inr by blast
  have "snd (read_sections rt h now (row # rows) s) = snd (read_sections rt h now rows (snd ?r))"
    using row v0 props' by (simp add: case_prod_beta split: sum.split prod.split)
  with Cons.prems have "dataCache (snd (read_sections rt h now rows (snd ?r))) key = Some (d, t)"
    by simp
  from Cons.IH [OF this] read_section_cache_time [of rt h now f0 fb0 s key d t]
  show ?case by blast
qed

lemma runMonitoringScript_cache:
  "dataCache (snd (runMonitoringScript h name s)) = dataCache s"
  by (simp add: runMonitoringScript_def Let_def split: prod.split exec_result.split)

lemma dashboard_cache_time:
  assumes "dataCache (snd (dashboard rt h now s)) key = Some (d, t)"
  shows "dataCache s key = Some (d, t) \<or> t = now"
proof (cases "truthy (cache_get (dataCache s) now ''dashboard_data'')")
  case True
  with assms show ?thesis by (simp add: dashboard_cached)
next
  case False
  let ?s2 = "snd (read_sections rt h now dashboard_sections
              (snd (runMonitoringScript h ''generate_report.sh'' s)))"
  from dashboard_fresh [OF False, of rt h] obtain props where
    "snd (dashboard rt h now s) =
       ?s2\<lparr>dataCache := cache_set (dataCache ?s2) now ''dashboard_data''
                 (JObj ((''timestamp'', JStr (toISOString rt now)) # props))\<rparr>"
    by auto
  with assms have "dataCache ?s2 key = Some (d, t) \<or> t = now"
    by (auto simp: cache_set_def split: if_splits)
  then show ?thesis
    using read_sections_cache_time [of rt h now dashboard_sections
        "snd (runMonitoringScript h ''generate_report.sh'' s)" key d t]
    by (auto simp: runMonitoringScript_cache)
qed

lemma cache_expired:
  assumes "\<And>d t. c key = Some (d, t) \<Longrightarrow> t + ttl \<le> now"
  shows "cache_get c now key = JNull"
  using assms by (cases "c key") (auto simp: cache_get_def)

lemma demo_script_missing:
  "runMonitoringScript flaky_host ''generate_report.sh'' (s\<lparr>files := no_files\<rparr>)
     = (Resolved ''Script not found - using sample data'', s\<lparr>files := no_files\<rparr>)"
  "runMonitoringScript flaky_host ''generate_report.sh'' (boot no_files)
     = (Resolved ''Script not found - using sample data'', boot no_files)"
  "runMonitoringScript flaky_host ''generate_report.sh'' (boot login_only)
     = (Resolved ''Script not found - using sample data'', boot login_only)"
  by (simp_all add: runMonitoringScript_def Let_def no_files_def login_only_def boot_def
      flaky_host_def BACKEND_DIR_def path_join_def)

lemma demo_rows:
  "(''login_summary'', ''login_summary.json'', Sample ''login_summary'') \<in> set dashboard_sections"
  "(''security_metrics'', ''security_metrics.json'', Sample ''security_metrics'')
     \<in> set dashboard_sections"
  "(''portscans'', ''portscans.json'', Literal (JArr [])) \<in> set dashboard_sections"
  by (simp_all add: dashboard_sections_def)

lemma demo_login_sample:
  "fst (generateSampleData demo_runtime t ''login_summary'' k) =
     JObj [(''timestamp'', JStr (toISOString demo_runtime t)),
           (''total_failed_logins'', JNum 35),
           (''total_successful_logins'', JNum 150),
           (''unique_attacking_ips'', JNum 15),
           (''brute_force_attempts'', JNum 10)]"
  "fst (generateSampleData zero_runtime t ''login_summary'' k) =
     JObj [(''timestamp'', JStr (toISOString demo_runtime t)),
           (''total_failed_logins'', JNum 10),
           (''total_successful_logins'', JNum 50),
           (''unique_attacking_ips'', JNum 5),
           (''brute_force_attempts'', JNum 3)]"
  by (simp_all add: generateSampleData_def rnd_def demo_runtime_def zero_runtime_def)

lemma demo_metrics_sample:
  "fst (generateSampleData demo_runtime t ''security_metrics'' k) =
     JObj [(''system_metrics'',
              JObj [(''cpu_usage_percent'', JNum 35),
                    (''memory_usage_percent'', JNum 50),
                    (''disk_usage_percent'', JNum 50)]),
           (''network_metrics'',
              JObj [(''active_connections'', JNum 100),
                    (''listening_ports'', JNum 20),
                    (''blocked_ips'', JNum 12)]),
           (''timestamp'', JStr (toISOString demo_runtime t))]"
  "fst (generateSampleData zero_runtime t ''security_metrics'' k) =
     JObj [(''system_metrics'',
              JObj [(''cpu_usage_percent'', JNum 20),
                    (''memory_usage_percent'', JNum 30),
                    (''disk_usage_percent'', JNum 40)]),
           (''network_metrics'',
              JObj [(''active_connections'', JNum 50),
                    (''listening_ports'', JNum 10),
                    (''blocked_ips'', JNum 5)]),
           (''timestamp'', JStr (toISOString demo_runtime t))]"
  by (simp_all add: generateSampleData_def rnd_def demo_runtime_def zero_runtime_def)

lemma list_all2_same_keys:
  "list_all2 (\<lambda>row prop. fst prop = fst row \<and> Q row prop) rows props \<Longrightarrow>
   map fst props = map fst rows"
  by (induction rule: list_all2_induct) auto

section \<open>Failed probes: theorems\<close>

text \<open>
  Claim C4, as amended.  A dashboard request that is not served from the cache builds
  each section from its file.  When the probe behind a section has failed, so that the
  file is missing, unreadable, not JSON or holds a falsy value, the section is the value
  cached from a read of that file less than 30 seconds earlier, if there is one;
  otherwise it is the fallback written in the endpoint.  The fallback is a literal, an
  empty array or object (\<^verbatim>\<open>{status: 'operational'}\<close> for \<^verbatim>\<open>soc_status\<close>), for every section
  but three: \<^verbatim>\<open>login_summary\<close>, \<^verbatim>\<open>failed_logins\<close> and \<^verbatim>\<open>security_metrics\<close> are filled with
  freshly generated sample data.  The prior snapshot is not consulted.
\<close>

theorem failed_section_fallback:
  assumes "(key, fileName, fb) \<in> set dashboard_sections"
    and "\<not> truthy (cache_get (dataCache s) now ''dashboard_data'')"
  shows "(\<exists>k. get_field key (body (fst (dashboard rt h now s))) =
           Some (let s1 = snd (runMonitoringScript h ''generate_report.sh'' s);
                     filePath = path_join (OUTPUT_DIR h) fileName;
                     cached = cache_get (dataCache s1) now filePath
                 in if truthy cached then cached
                    else (case files s1 filePath of
                            Missing \<Rightarrow> fallback_value rt now fb k
                          | Unreadable \<Rightarrow> fallback_value rt now fb k
                          | Content text \<Rightarrow>
                              (case JSON_parse rt text of
                                 None \<Rightarrow> fallback_value rt now fb k
                               | Some data \<Rightarrow>
                                   if truthy data then data else fallback_value rt now fb k))))
     \<and> (\<exists>dataType. fb = Sample dataType)
           = (key \<in> {''login_summary'', ''failed_logins'', ''security_metrics''})"
proof -
  let ?s1 = "snd (runMonitoringScript h ''generate_report.sh'' s)"
  let ?p = "path_join (OUTPUT_DIR h) fileName"
  from dashboard_fresh [OF assms(2), of rt h] obtain props where
    props: "fst (read_sections rt h now dashboard_sections ?s1) = Inr props"
    and body: "body (fst (dashboard rt h now s))
                 = JObj ((''timestamp'', JStr (toISOString rt now)) # props)"
    by auto
  from read_sections_lookup [OF dashboard_sections_distinct(1,2) assms(1), of rt h now ?s1] props
  obtain k where k: "map_of props key =
         Some (if read_fails rt now ?p ?s1 then fallback_value rt now fb k
               else projr (fst (readJSONFile rt now ?p ?s1)))"
    by auto
  have "get_field key (body (fst (dashboard rt h now s))) = map_of props key"
    using dashboard_sections_distinct(3) [OF assms(1)] by (simp add: body)
  with k have "get_field key (body (fst (dashboard rt h now s))) =
         Some (if read_fails rt now ?p ?s1 then fallback_value rt now fb k
               else projr (fst (readJSONFile rt now ?p ?s1)))"
    by simp
  also have "(if read_fails rt now ?p ?s1 then fallback_value rt now fb k
               else projr (fst (readJSONFile rt now ?p ?s1)))
     = (let cached = cache_get (dataCache ?s1) now ?p
        in if truthy cached then cached
           else (case files ?s1 ?p of
                   Missing \<Rightarrow> fallback_value rt now fb k
                 | Unreadable \<Rightarrow> fallback_value rt now fb k
                 | Content text \<Rightarrow>
                     (case JSON_parse rt text of
                        None \<Rightarrow> fallback_value rt now fb k
                      | Some data \<Rightarrow>
                          if truthy data then data else fallback_value rt now fb k)))"
    unfolding read_fails_def
    by (simp add: readJSONFile_result Let_def split: file_state.split option.split)
  finally have "\<exists>k. get_field key (body (fst (dashboard rt h now s))) =
           Some (let s1 = snd (runMonitoringScript h ''generate_report.sh'' s);
                     filePath = path_join (OUTPUT_DIR h) fileName;
                     cached = cache_get (dataCache s1) now filePath
                 in if truthy cached then cached
                    else (case files s1 filePath of
                            Missing \<Rightarrow> fallback_value rt now fb k
                          | Unreadable \<Rightarrow> fallback_value rt now fb k
                          | Content text \<Rightarrow>
                              (case JSON_parse rt text of
                                 None \<Rightarrow> fallback_value rt now fb k
                               | Some data \<Rightarrow>
                                   if truthy data then data else fallback_value rt now fb k)))"
    unfolding Let_def by blast
  with dashboard_sections_distinct(4) [OF assms(1)] show ?thesis by blast
qed

text \<open>The theorem at work, right after boot with no files: the port scan section, whose
  file is missing, is the empty array.\<close>

theorem failed_section_fallback_witness:
  "(''portscans'', ''portscans.json'', Literal (JArr [])) \<in> set dashboard_sections
   \<and> \<not> truthy (cache_get (dataCache (boot no_files)) 0 ''dashboard_data'')
   \<and> files (boot no_files) (path_join (OUTPUT_DIR flaky_host) ''portscans.json'') = Missing
   \<and> get_field ''portscans'' (body (fst (dashboard demo_runtime flaky_host 0 (boot no_files))))
       = Some (JArr [])"
proof -
  have miss: "\<not> truthy (cache_get (dataCache (boot no_files)) 0 ''dashboard_data'')"
    by (simp add: boot_def cache_get_def)
  from failed_section_fallback [OF demo_rows(3) miss, of demo_runtime flaky_host]
  have "get_field ''portscans'' (body (fst (dashboard demo_runtime flaky_host 0 (boot no_files))))
       = Some (JArr [])"
    by (simp add: demo_script_missing Let_def) (simp add: boot_def cache_get_def no_files_def)
  with miss demo_rows(3) show ?thesis by (simp add: boot_def no_files_def)
qed

text \<open>
  Claim C4 as stated fails.  A first dashboard request reads a login summary from its
  file, here the empty object.  The file is then deleted, and a minute later a second
  request is made.  Its login summary is not the earlier value and not a fixed default:
  it is sample data, with the numbers 35, 150, 15 and 10 when \<^verbatim>\<open>Math.random\<close> draws
  \<open>1/2\<close>, and 10, 50, 5 and 3 in the same state when it draws \<open>0\<close>.
\<close>

theorem generated_data_replaces_prior_value:
  "(let s0 = boot login_only;
        (first, s1) = dashboard demo_runtime flaky_host 0 s0;
        s2 = step demo_runtime flaky_host 1000 (FilesChanged no_files) s1;
        (second, s3) = dashboard demo_runtime flaky_host 60000 s2;
        (other, s4) = dashboard zero_runtime flaky_host 60000 s2
    in get_field ''login_summary'' (body first) = Some (JObj [])
       \<and> get_field ''login_summary'' (body second) =
           Some (JObj [(''timestamp'', JStr (toISOString demo_runtime 60000)),
                       (''total_failed_logins'', JNum 35),
                       (''total_successful_logins'', JNum 150),
                       (''unique_attacking_ips'', JNum 15),
                       (''brute_force_attempts'', JNum 10)])
       \<and> get_field ''login_summary'' (body other) =
           Some (JObj [(''timestamp'', JStr (toISOString demo_runtime 60000)),
                       (''total_failed_logins'', JNum 10),
                       (''total_successful_logins'', JNum 50),
                       (''unique_attacking_ips'', JNum 5),
                       (''brute_force_attempts'', JNum 3)]))"
proof -
  let ?p = "path_join (OUTPUT_DIR flaky_host) ''login_summary.json''"
  define s1 where "s1 = snd (dashboard demo_runtime flaky_host 0 (boot login_only))"
  define s2 where "s2 = s1\<lparr>files := no_files\<rparr>"
  have miss0: "\<not> truthy (cache_get (dataCache (boot login_only)) 0 ''dashboard_data'')"
    by (simp add: boot_def cache_get_def)
  have ok0: "\<not> read_fails demo_runtime 0 ?p (boot login_only)"
    and val0: "fst (readJSONFile demo_runtime 0 ?p (boot login_only)) = Inr (JObj [])"
    by (simp_all add: read_fails_def readJSONFile_def readJSONFile_try_def cache_get_def boot_def
        login_only_def OUTPUT_DIR_def flaky_host_def path_join_def demo_runtime_def)
  from dashboard_section_lookup [OF demo_rows(1) miss0, of demo_runtime flaky_host] ok0 val0
  have first: "get_field ''login_summary''
      (body (fst (dashboard demo_runtime flaky_host 0 (boot login_only)))) = Some (JObj [])"
    by (simp add: demo_script_missing)
  have old: "t = 0" if "dataCache s2 key = Some (d, t)" for key d t
    using that dashboard_cache_time [of demo_runtime flaky_host 0 "boot login_only" key d t]
    by (simp add: s2_def s1_def boot_def)
  have gone: "cache_get (dataCache s2) 60000 key = JNull" for key
    by (rule cache_expired) (auto dest: old simp: ttl_def)
  have miss: "\<not> truthy (cache_get (dataCache s2) 60000 ''dashboard_data'')"
    by (simp add: gone)
  have run2: "snd (runMonitoringScript flaky_host ''generate_report.sh'' s2) = s2"
    by (simp add: s2_def demo_script_missing)
  have nofile: "files s2 ?p = Missing"
    by (simp add: s2_def no_files_def)
  have fails: "read_fails rt 60000 ?p s2" for rt
    by (simp add: read_fails_def readJSONFile_result gone nofile)
  from dashboard_section_lookup [OF demo_rows(1) miss, of demo_runtime flaky_host] fails
  have second: "get_field ''login_summary''
      (body (fst (dashboard demo_runtime flaky_host 60000 s2))) =
           Some (JObj [(''timestamp'', JStr (toISOString demo_runtime 60000)),
                       (''total_failed_logins'', JNum 35),
                       (''total_successful_logins'', JNum 150),
                       (''unique_attacking_ips'', JNum 15),
                       (''brute_force_attempts'', JNum 10)])"
    by (simp add: run2 demo_login_sample)
  from dashboard_section_lookup [OF demo_rows(1) miss, of zero_runtime flaky_host] fails
  have other: "get_field ''login_summary''
      (body (fst (dashboard zero_runtime flaky_host 60000 s2))) =
           Some (JObj [(''timestamp'', JStr (toISOString demo_runtime 60000)),
                       (''total_failed_logins'', JNum 10),
                       (''total_successful_logins'', JNum 50),
                       (''unique_attacking_ips'', JNum 5),
                       (''brute_force_attempts'', JNum 3)])"
    by (simp add: run2 demo_login_sample)
  have step2: "step demo_runtime flaky_host 1000 (FilesChanged no_files) s1 = s2"
    by (simp add: step_def s2_def)
  from first second other show ?thesis
    unfolding Let_def case_prod_beta s1_def [symmetric] step2 by simp
qed

lemma demo_row_soc_status:
  "(''soc_status'', ''soc_status.json'', Literal (JObj [(''status'', JStr ''operational'')]))
     \<in> set dashboard_sections"
  by (simp add: dashboard_sections_def)


text \<open>
  Claim C7, as amended.  No probe failure makes the dashboard request fail.  The promise
  of the script runner always resolves, whether the script is missing, exits with an
  error, times out or prints anything at all; the file reader always returns a value;
  and the dashboard handler always answers with status 200.  Its answer is the cached
  snapshot when there is a fresh one.  Otherwise it is a snapshot with the timestamp and
  one property per row of the endpoint's object, and each property is settled by what
  the file reader returns for the row's file once the script has run: that value when it
  is truthy, and the row's fallback when it is not, as it is after a failed probe (file
  missing, unreadable or not JSON, and nothing fresh in the 30-second cache).  The
  fallback is the literal default written in the row, or, for \<^verbatim>\<open>login_summary\<close>,
  \<^verbatim>\<open>failed_logins\<close> and \<^verbatim>\<open>security_metrics\<close>, sample data generated for the request.
\<close>

theorem dashboard_absorbs_probe_failures:
  "statusCode (fst (dashboard rt h now s)) = 200
   \<and> (\<exists>out. fst (runMonitoringScript h scriptName s) = Resolved out)
   \<and> (\<exists>v. fst (readJSONFile rt now filePath s) = Inr v)
   \<and> (truthy (cache_get (dataCache s) now ''dashboard_data'') \<longrightarrow>
        body (fst (dashboard rt h now s)) = cache_get (dataCache s) now ''dashboard_data'')
   \<and> (\<not> truthy (cache_get (dataCache s) now ''dashboard_data'') \<longrightarrow>
        keys (body (fst (dashboard rt h now s))) = ''timestamp'' # map fst dashboard_sections
        \<and> get_field ''timestamp'' (body (fst (dashboard rt h now s)))
            = Some (JStr (toISOString rt now))
        \<and> (\<forall>row \<in> set dashboard_sections.
              \<exists>v section.
                fst (readJSONFile rt now (path_join (OUTPUT_DIR h) (fst (snd row)))
                       (snd (runMonitoringScript h ''generate_report.sh'' s))) = Inr v
                \<and> get_field (fst row) (body (fst (dashboard rt h now s))) = Some section
                \<and> (if truthy v then section = v
                   else (case snd (snd row) of
                           Literal d \<Rightarrow> section = d
                         | Sample dataType \<Rightarrow>
                             \<exists>k. section = fst (generateSampleData rt now dataType k)))))"
proof -
  let ?s1 = "snd (runMonitoringScript h ''generate_report.sh'' s)"
  have fresh: "keys (body (fst (dashboard rt h now s))) = ''timestamp'' # map fst dashboard_sections
        \<and> get_field ''timestamp'' (body (fst (dashboard rt h now s)))
            = Some (JStr (toISOString rt now))
        \<and> (\<forall>row \<in> set dashboard_sections.
              \<exists>v section.
                fst (readJSONFile rt now (path_join (OUTPUT_DIR h) (fst (snd row))) ?s1) = Inr v
                \<and> get_field (fst row) (body (fst (dashboard rt h now s))) = Some section
                \<and> (if truthy v then section = v
                   else (case snd (snd row) of
                           Literal d \<Rightarrow> section = d
                         | Sample dataType \<Rightarrow>
                             \<exists>k. section = fst (generateSampleData rt now dataType k))))"
    if miss: "\<not> truthy (cache_get (dataCache s) now ''dashboard_data'')"
  proof -
    from dashboard_fresh [OF miss, of rt h] obtain props where
      ks: "map fst props = map fst dashboard_sections"
      and b: "body (fst (dashboard rt h now s))
                 = JObj ((''timestamp'', JStr (toISOString rt now)) # props)"
      by auto
    have rows: "\<exists>v section.
                fst (readJSONFile rt now (path_join (OUTPUT_DIR h) (fst (snd row))) ?s1) = Inr v
                \<and> get_field (fst row) (body (fst (dashboard rt h now s))) = Some section
                \<and> (if truthy v then section = v
                   else (case snd (snd row) of
                           Literal d \<Rightarrow> section = d
                         | Sample dataType \<Rightarrow>
                             \<exists>k. section = fst (generateSampleData rt now dataType k)))"
      if row: "row \<in> set dashboard_sections" for row
    proof -
      obtain key fileName fb where r: "row = (key, fileName, fb)" by (cases row)
      let ?p = "path_join (OUTPUT_DIR h) fileName"
      obtain v where v: "fst (readJSONFile rt now ?p ?s1) = Inr v"
        using readJSONFile_Inr by blast
      from row r have "(key, fileName, fb) \<in> set dashboard_sections" by simp
      from dashboard_section_lookup [OF this miss, of rt h] obtain k where
        k: "get_field key (body (fst (dashboard rt h now s))) =
              Some (if read_fails rt now ?p ?s1 then fallback_value rt now fb k
                    else projr (fst (readJSONFile rt now ?p ?s1)))"
        by blast
      have rf: "read_fails rt now ?p ?s1 = (\<not> truthy v)"
        by (simp add: read_fails_def v)
      show ?thesis
      proof (cases "truthy v")
        case True
        with k rf v r show ?thesis by simp
      next
        case False
        with k rf have "get_field key (body (fst (dashboard rt h now s)))
            = Some (fallback_value rt now fb k)"
          by simp
        with False v r show ?thesis by (cases fb) auto
      qed
    qed
    from b ks rows show ?thesis by simp
  qed
  show ?thesis
    using fresh runMonitoringScript_Resolved [of h scriptName s]
      readJSONFile_Inr [of rt now filePath s]
    by (simp add: dashboard_status dashboard_cached)
qed


text \<open>The theorem at work, right after boot with no script and no files: the runner
  resolves, the answer has status 200 and the properties of the endpoint's object, and
  its \<^verbatim>\<open>soc_status\<close> is the literal default of that row.\<close>

theorem dashboard_absorbs_probe_failures_witness:
  "\<not> truthy (cache_get (dataCache (boot no_files)) 0 ''dashboard_data'')
   \<and> statusCode (fst (dashboard demo_runtime flaky_host 0 (boot no_files))) = 200
   \<and> fst (runMonitoringScript flaky_host ''generate_report.sh'' (boot no_files))
       = Resolved ''Script not found - using sample data''
   \<and> keys (body (fst (dashboard demo_runtime flaky_host 0 (boot no_files)))) = dashboard_keys
   \<and> get_field ''soc_status'' (body (fst (dashboard demo_runtime flaky_host 0 (boot no_files))))
       = Some (JObj [(''status'', JStr ''operational'')])"
proof -
  have miss: "\<not> truthy (cache_get (dataCache (boot no_files)) 0 ''dashboard_data'')"
    by (simp add: boot_def cache_get_def)
  have null: "fst (readJSONFile demo_runtime 0 (path_join (OUTPUT_DIR flaky_host) ''soc_status.json'')
      (boot no_files)) = Inr JNull"
    by (simp add: readJSONFile_result boot_def cache_get_def no_files_def)
  note main = dashboard_absorbs_probe_failures
    [of demo_runtime flaky_host 0 "boot no_files" "''generate_report.sh''" "''x''"]
  from main miss
  have st: "statusCode (fst (dashboard demo_runtime flaky_host 0 (boot no_files))) = 200"
    and ks: "keys (body (fst (dashboard demo_runtime flaky_host 0 (boot no_files)))) = dashboard_keys"
    by (simp_all add: dashboard_keys_def)
  from main miss have "\<forall>row \<in> set dashboard_sections.
              \<exists>v section.
                fst (readJSONFile demo_runtime 0 (path_join (OUTPUT_DIR flaky_host) (fst (snd row)))
                       (snd (runMonitoringScript flaky_host ''generate_report.sh'' (boot no_files)))) = Inr v
                \<and> get_field (fst row) (body (fst (dashboard demo_runtime flaky_host 0 (boot no_files)))) = Some section
                \<and> (if truthy v then section = v
                   else (case snd (snd row) of
                           Literal d \<Rightarrow> section = d
                         | Sample dataType \<Rightarrow>
                             \<exists>k. section = fst (generateSampleData demo_runtime 0 dataType k)))"
    by blast
  from this [rule_format, OF demo_row_soc_status] null
  have "get_field ''soc_status'' (body (fst (dashboard demo_runtime flaky_host 0 (boot no_files))))
       = Some (JObj [(''status'', JStr ''operational'')])"
    by (auto simp: demo_script_missing)
  with miss st ks show ?thesis by (simp add: demo_script_missing)
qed

text \<open>
  Claim C7 as stated fails where it says that the section of a failed probe is a stale or
  default value.  Right after boot nothing stale exists, and the security metrics of the
  first answer are no fixed default: with no files they are 35, 50, 50, 100, 20 and 12
  when \<^verbatim>\<open>Math.random\<close> draws \<open>1/2\<close>, and 20, 30, 40, 50, 10 and 5 when it draws \<open>0\<close>.
\<close>

theorem sample_data_is_no_default:
  "get_field ''security_metrics''
     (body (fst (dashboard demo_runtime flaky_host 0 (boot no_files)))) =
     Some (JObj [(''system_metrics'',
                    JObj [(''cpu_usage_percent'', JNum 35),
                          (''memory_usage_percent'', JNum 50),
                          (''disk_usage_percent'', JNum 50)]),
                 (''network_metrics'',
                    JObj [(''active_connections'', JNum 100),
                          (''listening_ports'', JNum 20),
                          (''blocked_ips'', JNum 12)]),
                 (''timestamp'', JStr (toISOString demo_runtime 0))])
   \<and> get_field ''security_metrics''
     (body (fst (dashboard zero_runtime flaky_host 0 (boot no_files)))) =
     Some (JObj [(''system_metrics'',
                    JObj [(''cpu_usage_percent'', JNum 20),
                          (''memory_usage_percent'', JNum 30),
                          (''disk_usage_percent'', JNum 40)]),
                 (''network_metrics'',
                    JObj [(''active_connections'', JNum 50),
                          (''listening_ports'', JNum 10),
                          (''blocked_ips'', JNum 5)]),
                 (''timestamp'', JStr (toISOString demo_runtime 0))])"
proof -
  let ?p = "path_join (OUTPUT_DIR flaky_host) ''security_metrics.json''"
  have miss: "\<not> truthy (cache_get (dataCache (boot no_files)) 0 ''dashboard_data'')"
    by (simp add: boot_def cache_get_def)
  have fails: "read_fails rt 0 ?p (boot no_files)" for rt
    by (simp add: read_fails_def readJSONFile_def readJSONFile_try_def cache_get_def boot_def
        no_files_def)
  from dashboard_section_lookup [OF demo_rows(2) miss, of demo_runtime flaky_host]
    dashboard_section_lookup [OF demo_rows(2) miss, of zero_runtime flaky_host] fails
  show ?thesis by (simp add: demo_script_missing demo_metrics_sample)
qed

end
